theory Spec2Isabelle
  imports Complex_Main "HOL-Library.Log_Nat"
begin

section \<open>Errors\<close>

text \<open>
  Every exception of the Python source is a value. \<open>ValueError\<close> carries the message of
  the \<^verbatim>\<open>raise\<close> statement. \<open>TypeError\<close> is calling or multiplying \<^verbatim>\<open>None\<close>,
  \<open>AttributeError\<close> is reading an attribute that no call has assigned yet,
  \<open>OverflowError\<close> is \<^verbatim>\<open>int(-inf)\<close>, and \<open>DimensionError\<close> is a shape mismatch
  reported by the array layer.
\<close>

datatype error =
    ValueError string
  | TypeError
  | AttributeError
  | OverflowError
  | DimensionError

section \<open>The array layer\<close>

text \<open>
  A two-dimensional array is the list of its rows. Floating-point numbers are idealised:
  \<^verbatim>\<open>complex128\<close> entries are \<^typ>\<open>complex\<close> numbers and \<^verbatim>\<open>float64\<close> entries are
  \<^typ>\<open>real\<close> numbers, so all arithmetic is exact.
\<close>

type_synonym 'a mat = "'a list list"

definition mk_mat :: "nat \<Rightarrow> nat \<Rightarrow> (nat \<Rightarrow> nat \<Rightarrow> 'a) \<Rightarrow> 'a mat" where
  "mk_mat r c f = map (\<lambda>i. map (\<lambda>j. f i j) [0..<c]) [0..<r]"

definition nrows :: "'a mat \<Rightarrow> nat" where
  "nrows M = length M"

definition ncols :: "'a mat \<Rightarrow> nat" where
  "ncols M = (case M of [] \<Rightarrow> 0 | r # _ \<Rightarrow> length r)"

definition is_mat :: "nat \<Rightarrow> nat \<Rightarrow> 'a mat \<Rightarrow> bool" where
  "is_mat r c M = (length M = r \<and> list_all (\<lambda>row. length row = c) M)"

text \<open>\<^verbatim>\<open>np.zeros((r, c))\<close> and \<^verbatim>\<open>np.eye(d)\<close>.\<close>

definition zeros :: "nat \<Rightarrow> nat \<Rightarrow> 'a::zero mat" where
  "zeros r c = mk_mat r c (\<lambda>i j. 0)"

definition eye :: "nat \<Rightarrow> 'a::zero_neq_one mat" where
  "eye d = mk_mat d d (\<lambda>i j. if i = j then 1 else 0)"

text \<open>
  Modelled from the spec: the State Object (\<^verbatim>\<open>qobj.py\<close>) and the helpers of
  \<^verbatim>\<open>routines.py\<close> are not among the sources. The spec lists their contracts: matrix
  product, tensor (Kronecker) product, transpose, partial trace over a named qubit subset,
  the complete set of single-entry basis operators, and dimension errors that propagate
  from the algebra layer. A \<^verbatim>\<open>Qobj\<close> is modelled as the matrix it wraps.
\<close>

definition mtranspose :: "'a mat \<Rightarrow> 'a mat" where
  "mtranspose M = mk_mat (ncols M) (nrows M) (\<lambda>i j. M ! j ! i)"

definition kron :: "'a::times mat \<Rightarrow> 'a mat \<Rightarrow> 'a mat" where
  "kron A B = mk_mat (nrows A * nrows B) (ncols A * ncols B)
     (\<lambda>i j. A ! (i div nrows B) ! (j div ncols B) * B ! (i mod nrows B) ! (j mod ncols B))"

definition mat_plus :: "'a::plus mat \<Rightarrow> 'a mat \<Rightarrow> 'a mat" where
  "mat_plus A B = mk_mat (nrows A) (ncols A) (\<lambda>i j. A ! i ! j + B ! i ! j)"

definition madd :: "'a::plus mat \<Rightarrow> 'a mat \<Rightarrow> error + 'a mat" where
  "madd A B =
     (if nrows A = nrows B \<and> ncols A = ncols B then Inr (mat_plus A B)
      else Inl DimensionError)"

definition smult :: "'a::times \<Rightarrow> 'a mat \<Rightarrow> 'a mat" where
  "smult c M = map (map (\<lambda>x. c * x)) M"

definition matmul :: "'a::{times,monoid_add} mat \<Rightarrow> 'a mat \<Rightarrow> error + 'a mat" where
  "matmul A B =
     (if ncols A = nrows B
      then Inr (mk_mat (nrows A) (ncols B)
                  (\<lambda>i j. sum_list (map (\<lambda>k. A ! i ! k * B ! k ! j) [0..<ncols A])))
      else Inl DimensionError)"

definition matvec :: "'a::{times,monoid_add} mat \<Rightarrow> 'a list \<Rightarrow> error + 'a list" where
  "matvec A v =
     (if ncols A = length v
      then Inr (map (\<lambda>row. sum_list (map (\<lambda>k. row ! k * v ! k) [0..<length v])) A)
      else Inl DimensionError)"

definition single_entry :: "nat \<Rightarrow> nat \<Rightarrow> nat \<Rightarrow> 'a::zero_neq_one mat" where
  "single_entry d i j = mk_mat d d (\<lambda>a b. if a = i \<and> b = j then 1 else 0)"

definition generate_single_entries :: "nat \<Rightarrow> 'a::zero_neq_one mat list" where
  "generate_single_entries d = map (\<lambda>idx. single_entry d (idx div d) (idx mod d)) [0..<d * d]"

text \<open>
  Modelled from the spec: \<^verbatim>\<open>Qobj.ptrace\<close> (\<^verbatim>\<open>qobj.py\<close>), the partial trace over a
  named qubit subset; its argument lists the qubits that remain, so that
  \<^verbatim>\<open>ptrace(range(n, 2n))\<close> traces out the first \<open>n\<close> qubits as the spec says of
  \<^verbatim>\<open>transform\<close>. A \<open>2^N \<times> 2^N\<close> operator acts on \<open>N\<close> qubits; qubit \<open>0\<close> is the most
  significant bit of a row or column index. \<open>sub_index N qs r\<close> reads the bits of \<open>r\<close> at
  the qubits \<open>qs\<close>. The entry \<open>(a, b)\<close> of the partial trace sums the entries \<open>(r, c)\<close> whose
  kept bits are \<open>a\<close> and \<open>b\<close> and whose traced-out bits agree. A matrix that is not
  \<open>2^N \<times> 2^N\<close>, or a list \<open>keep\<close> that repeats or exceeds the qubits, is a dimension error.
\<close>

definition qubit_bit :: "nat \<Rightarrow> nat \<Rightarrow> nat \<Rightarrow> nat" where
  "qubit_bit N r q = (r div 2 ^ (N - 1 - q)) mod 2"

definition sub_index :: "nat \<Rightarrow> nat list \<Rightarrow> nat \<Rightarrow> nat" where
  "sub_index N qs r = foldl (\<lambda>acc q. 2 * acc + qubit_bit N r q) 0 qs"

definition ptrace :: "'a::monoid_add mat \<Rightarrow> nat list \<Rightarrow> error + 'a mat" where
  "ptrace M keep =
     (let N = floorlog 2 (nrows M) - 1;
          D = 2 ^ N;
          kept = filter (\<lambda>q. q \<in> set keep) [0..<N];
          rest = filter (\<lambda>q. q \<notin> set keep) [0..<N];
          K = 2 ^ length keep
      in if nrows M \<noteq> D \<or> \<not> is_mat D D M \<or> length kept \<noteq> length keep
         then Inl DimensionError
         else Inr (mk_mat K K (\<lambda>a b.
                sum_list (map (\<lambda>r.
                  sum_list (map (\<lambda>c.
                    if sub_index N kept r = a \<and> sub_index N kept c = b
                       \<and> sub_index N rest r = sub_index N rest c
                    then M ! r ! c else 0) [0..<D])) [0..<D]))))"

section \<open>Channel\<close>

text \<open>
  The class \<^verbatim>\<open>Channel\<close> of \<^verbatim>\<open>channel.py\<close>. The attributes \<^verbatim>\<open>_types\<close>, \<^verbatim>\<open>_choi\<close>
  and \<^verbatim>\<open>_func\<close> are the fields \<open>u_types\<close>, \<open>u_choi\<close> and \<open>u_func\<close>; \<^verbatim>\<open>None\<close> is
  \<open>None\<close>. A method that mutates \<^verbatim>\<open>self\<close> returns the channel it leaves behind,
  also when it raises. The qubit count is a natural number, and the transformation function
  is a function on matrices: it neither raises nor touches the channel.
\<close>

record channel =
  u_types :: "string set"
  u_choi :: "complex mat option"
  u_func :: "(complex mat \<Rightarrow> complex mat) option"
  n_qubits :: nat

datatype data =
    Callable "complex mat \<Rightarrow> complex mat"
  | NdArray "complex mat"
  | QobjData "complex mat"
  | Other

text \<open>
  \<^verbatim>\<open>int(np.log2(s) / 2)\<close> for a side length \<open>s\<close>: \<^verbatim>\<open>np.log2(0)\<close> is \<^verbatim>\<open>-inf\<close>, which
  \<^verbatim>\<open>int\<close> refuses; for \<open>s > 0\<close> the truncation of \<open>log2 s / 2\<close> is
  \<open>\<lfloor>log2 s\<rfloor> div 2\<close>, and \<open>floorlog 2 s = \<lfloor>log2 s\<rfloor> + 1\<close>.
\<close>

definition int_log2_half :: "nat \<Rightarrow> error + nat" where
  "int_log2_half s = (if s = 0 then Inl OverflowError else Inr ((floorlog 2 s - 1) div 2))"

definition channel_init :: "data \<Rightarrow> nat option \<Rightarrow> error + channel" where
  "channel_init d n_qubits_arg =
     (case d of
        Callable f \<Rightarrow>
          (case n_qubits_arg of
             None \<Rightarrow> Inl (ValueError
               ''`n_qubits` argument is compulsory when using init with function'')
           | Some n \<Rightarrow>
               Inr \<lparr>u_types = {''func''}, u_choi = None, u_func = Some f, n_qubits = n\<rparr>)
      | NdArray m \<Rightarrow>
          (case int_log2_half (nrows m) of
             Inl e \<Rightarrow> Inl e
           | Inr n \<Rightarrow>
               Inr \<lparr>u_types = {''choi''}, u_choi = Some m, u_func = None, n_qubits = n\<rparr>)
      | QobjData m \<Rightarrow>
          (case int_log2_half (nrows m) of
             Inl e \<Rightarrow> Inl e
           | Inr n \<Rightarrow>
               Inr \<lparr>u_types = {''choi''}, u_choi = Some m, u_func = None, n_qubits = n\<rparr>)
      | Other \<Rightarrow> Inl (ValueError ''Invalid data format''))"

definition set_func :: "channel \<Rightarrow> (complex mat \<Rightarrow> complex mat) \<Rightarrow> nat \<Rightarrow> channel" where
  "set_func c f n =
     c\<lparr>u_types := insert ''func'' (u_types c) - {''choi''}, u_func := Some f, n_qubits := n\<rparr>"

text \<open>
  The setter of the property \<^verbatim>\<open>choi\<close>. The tags and the matrix are assigned before the
  qubit count is computed, so they stay assigned when that computation raises.
\<close>

definition choi_setter :: "channel \<Rightarrow> complex mat \<Rightarrow> channel \<times> error option" where
  "choi_setter c m =
     (let c1 = c\<lparr>u_types := insert ''choi'' (u_types c) - {''func''}, u_choi := Some m\<rparr>
      in case int_log2_half (nrows m) of
           Inl e \<Rightarrow> (c1, Some e)
         | Inr n \<Rightarrow> (c1\<lparr>n_qubits := n\<rparr>, None))"

text \<open>
  The \<^verbatim>\<open>else\<close> branch of \<^verbatim>\<open>transform\<close> (lines 96 and 97), given the value \<open>ch\<close> that
  reading \<^verbatim>\<open>self.choi\<close> returned.
\<close>

definition choi_apply :: "nat \<Rightarrow> complex mat option \<Rightarrow> complex mat \<Rightarrow> error + complex mat" where
  "choi_apply n ch state =
     (case ch of
        None \<Rightarrow> Inl TypeError
      | Some C \<Rightarrow>
          (case matmul (kron (mtranspose state) (eye (2 ^ n))) C of
             Inl e \<Rightarrow> Inl e
           | Inr P \<Rightarrow> ptrace P [n..<2 * n]))"

text \<open>
  \<^verbatim>\<open>transform\<close> as the loop of the getter calls it. The getter has added the tag
  \<^verbatim>\<open>'choi'\<close> before the loop starts, so a read of \<^verbatim>\<open>self.choi\<close> inside the loop returns
  the matrix accumulated so far and changes nothing.
\<close>

definition transform_cached :: "channel \<Rightarrow> complex mat \<Rightarrow> error + complex mat" where
  "transform_cached c state =
     (if ''func'' \<in> u_types c
      then (case u_func c of None \<Rightarrow> Inl TypeError | Some f \<Rightarrow> Inr (f state))
      else choi_apply (n_qubits c) (u_choi c) state)"

text \<open>The \<^verbatim>\<open>for\<close> loop of the getter (lines 76 and 77).\<close>

fun choi_loop :: "channel \<Rightarrow> complex mat list \<Rightarrow> channel \<times> error option" where
  "choi_loop c [] = (c, None)"
| "choi_loop c (E # Es) =
     (case transform_cached c E of
        Inl e \<Rightarrow> (c, Some e)
      | Inr out \<Rightarrow>
          (case u_choi c of
             None \<Rightarrow> (c, Some TypeError)
           | Some acc \<Rightarrow>
               (case madd acc (kron E out) of
                  Inl e \<Rightarrow> (c, Some e)
                | Inr acc' \<Rightarrow> choi_loop (c\<lparr>u_choi := Some acc'\<rparr>) Es)))"

text \<open>The getter of the property \<^verbatim>\<open>choi\<close>; it returns \<^verbatim>\<open>self._choi\<close>, which may be \<^verbatim>\<open>None\<close>.\<close>

definition choi :: "channel \<Rightarrow> channel \<times> (error + complex mat option)" where
  "choi c =
     (if ''choi'' \<notin> u_types c
      then
        (let c1 = c\<lparr>u_types := insert ''choi'' (u_types c),
                     u_choi := Some (zeros (4 ^ n_qubits c) (4 ^ n_qubits c))\<rparr>
         in case choi_loop c1 (generate_single_entries (2 ^ n_qubits c)) of
              (c2, Some e) \<Rightarrow> (c2, Inl e)
            | (c2, None) \<Rightarrow> (c2, Inr (u_choi c2)))
      else (c, Inr (u_choi c)))"

definition transform :: "channel \<Rightarrow> complex mat \<Rightarrow> channel \<times> (error + complex mat)" where
  "transform c state =
     (if ''func'' \<in> u_types c
      then (c, case u_func c of None \<Rightarrow> Inl TypeError | Some f \<Rightarrow> Inr (f state))
      else
        (case choi c of
           (c', Inl e) \<Rightarrow> (c', Inl e)
         | (c', Inr ch) \<Rightarrow> (c', choi_apply (n_qubits c') ch state)))"

text \<open>
  A linear transformation on \<open>d \<times> d\<close> operators: it keeps the shape, and it commutes with
  the sum of two operators and with the product by a scalar.
\<close>

definition linear_on :: "nat \<Rightarrow> (complex mat \<Rightarrow> complex mat) \<Rightarrow> bool" where
  "linear_on d f =
     ((\<forall>A. is_mat d d A \<longrightarrow> is_mat d d (f A))
      \<and> (\<forall>A B. is_mat d d A \<and> is_mat d d B \<longrightarrow> f (mat_plus A B) = mat_plus (f A) (f B))
      \<and> (\<forall>c A. is_mat d d A \<longrightarrow> f (smult c A) = smult c (f A)))"

text \<open>
  The linear combination of a list of \<open>d \<times> d\<close> operators with their coefficients; it is
  used to write an operator in the basis of the single-entry operators.
\<close>

fun lin_comb :: "nat \<Rightarrow> (complex \<times> complex mat) list \<Rightarrow> complex mat" where
  "lin_comb d [] = zeros d d"
| "lin_comb d ((c, E) # xs) = mat_plus (smult c E) (lin_comb d xs)"

text \<open>
  The channels a program can hold: a constructed one, and what each method leaves behind,
  the intermediate states of the getter's loop included (the channel after the loop has
  run over the first \<open>k\<close> basis operators).
\<close>

inductive reachable :: "channel \<Rightarrow> bool" where
  r_init: "channel_init d n = Inr c \<Longrightarrow> reachable c"
| r_set_func: "reachable c \<Longrightarrow> reachable (set_func c f n)"
| r_choi_setter: "reachable c \<Longrightarrow> reachable (fst (choi_setter c m))"
| r_choi: "reachable c \<Longrightarrow> reachable (fst (choi c))"
| r_loop: "reachable c \<Longrightarrow> ''choi'' \<notin> u_types c \<Longrightarrow>
     reachable (fst (choi_loop
       (c\<lparr>u_types := insert ''choi'' (u_types c),
          u_choi := Some (zeros (4 ^ n_qubits c) (4 ^ n_qubits c))\<rparr>)
       (take k (generate_single_entries (2 ^ n_qubits c)))))"
| r_transform: "reachable c \<Longrightarrow> reachable (fst (transform c s))"

section \<open>Tomograph\<close>

text \<open>
  The class \<^verbatim>\<open>Tomograph\<close> of \<^verbatim>\<open>tomography.py\<close>. The true state is read through its
  accessors \<^verbatim>\<open>dim\<close> (the qubit count) and \<^verbatim>\<open>bloch\<close>. The attributes
  \<^verbatim>\<open>POVM_matrix\<close>, \<^verbatim>\<open>results\<close> and \<^verbatim>\<open>n_measurements\<close> do not exist before the first
  call of \<^verbatim>\<open>experiment\<close>; a missing attribute is \<open>None\<close>, and reading it is an
  \<open>AttributeError\<close>.
\<close>

record qstate =
  dim :: nat
  bloch :: "real list"

datatype metric = hs_dst | trace_dst | if_dst | custom_dst "qstate \<Rightarrow> qstate \<Rightarrow> real"

datatype dst_arg = DstName string | DstFun "qstate \<Rightarrow> qstate \<Rightarrow> real"

record tomograph =
  state :: qstate
  verbose :: bool
  dst :: metric
  POVM_matrix :: "real mat option"
  results :: "int list option"
  n_measurements :: "int option"

definition tomograph_init :: "qstate \<Rightarrow> dst_arg \<Rightarrow> bool \<Rightarrow> error + tomograph" where
  "tomograph_init s d v =
     (let mk = (\<lambda>m. \<lparr>state = s, verbose = v, dst = m, POVM_matrix = None, results = None,
                       n_measurements = None\<rparr>)
      in case d of
           DstName name \<Rightarrow>
             (if name = ''hs'' then Inr (mk hs_dst)
              else if name = ''trace'' then Inr (mk trace_dst)
              else if name = ''if'' then Inr (mk if_dst)
              else Inl (ValueError ''Invalid value for argument `dst`''))
         | DstFun f \<Rightarrow> Inr (mk (custom_dst f)))"

text \<open>\<^verbatim>\<open>np.vstack\<close> of two arrays: the rows of the first, then the rows of the second.\<close>

definition vstack :: "'a mat \<Rightarrow> 'a mat \<Rightarrow> error + 'a mat" where
  "vstack A B = (if ncols A = ncols B then Inr (A @ B) else Inl DimensionError)"

text \<open>
  Lines 36 and 37: the measurement matrix of the scheme and the outcome probabilities.
  \<^verbatim>\<open>generate_measurement_matrix\<close> is not among the sources; it is the parameter \<open>gen\<close>,
  which may fail (an unknown scheme).
\<close>

definition experiment_probas ::
  "(string \<Rightarrow> nat \<Rightarrow> error + real mat) \<Rightarrow> tomograph \<Rightarrow> string \<Rightarrow> error + real mat \<times> real list" where
  "experiment_probas gen t POVM =
     (case gen POVM (dim (state t)) of
        Inl e \<Rightarrow> Inl e
      | Inr P \<Rightarrow>
          (case matvec P (bloch (state t)) of
             Inl e \<Rightarrow> Inl e
           | Inr pv \<Rightarrow> Inr (P, map (\<lambda>x. x * 2 ^ dim (state t)) pv)))"

text \<open>
  What \<^verbatim>\<open>np.random.multinomial(n, pvals)\<close> can return: one count per probability, no count
  negative, and the counts add up to \<open>n\<close>.
\<close>

definition multinomial_draw :: "int \<Rightarrow> real list \<Rightarrow> int list \<Rightarrow> bool" where
  "multinomial_draw n pvals r =
     (length r = length pvals \<and> list_all (\<lambda>x. 0 \<le> x) r \<and> sum_list r = n)"

text \<open>
  The method \<^verbatim>\<open>experiment\<close> (the name is a keyword of Isabelle, hence the prefix). The
  random sample that line 38 draws is the argument \<open>draw\<close>.
\<close>

definition tomograph_experiment ::
  "(string \<Rightarrow> nat \<Rightarrow> error + real mat) \<Rightarrow> tomograph \<Rightarrow> int \<Rightarrow> string \<Rightarrow> bool \<Rightarrow> int list
     \<Rightarrow> error + tomograph" where
  "tomograph_experiment gen t n POVM warm_start draw =
     (case experiment_probas gen t POVM of
        Inl e \<Rightarrow> Inl e
      | Inr (P, probas) \<Rightarrow>
          (if warm_start then
             (case (POVM_matrix t, n_measurements t, results t) of
                (Some P1, Some m1, Some r1) \<Rightarrow>
                  (case vstack (map (map (\<lambda>x. x * real_of_int m1)) P1)
                               (map (map (\<lambda>x. x * real_of_int n)) P) of
                     Inl e \<Rightarrow> Inl e
                   | Inr S \<Rightarrow>
                       Inr (t\<lparr>POVM_matrix := Some (map (map (\<lambda>x. x / real_of_int (m1 + n))) S),
                              results := Some (r1 @ draw),
                              n_measurements := Some (m1 + n)\<rparr>))
              | _ \<Rightarrow> Inl AttributeError)
           else
             Inr (t\<lparr>POVM_matrix := Some P, results := Some draw, n_measurements := Some n\<rparr>)))"

text \<open>
  The tomographs a program can hold, with the calls whose data they hold: \<open>history gen t h\<close>
  says that \<open>t\<close> results from the constructor and calls of \<^verbatim>\<open>experiment\<close> that returned,
  each with a sample that \<^verbatim>\<open>np.random.multinomial\<close> can return, and \<open>h\<close> lists the count
  and the sample of every call since the last one without \<^verbatim>\<open>warm_start\<close>, in call order.
\<close>

inductive history ::
  "(string \<Rightarrow> nat \<Rightarrow> error + real mat) \<Rightarrow> tomograph \<Rightarrow> (int \<times> int list) list \<Rightarrow> bool"
  for gen :: "string \<Rightarrow> nat \<Rightarrow> error + real mat" where
  h_init: "tomograph_init s d v = Inr t \<Longrightarrow> history gen t []"
| h_fresh: "history gen t h \<Longrightarrow> experiment_probas gen t POVM = Inr (P, probas)
     \<Longrightarrow> multinomial_draw n probas draw
     \<Longrightarrow> tomograph_experiment gen t n POVM False draw = Inr t'
     \<Longrightarrow> history gen t' [(n, draw)]"
| h_warm: "history gen t h \<Longrightarrow> experiment_probas gen t POVM = Inr (P, probas)
     \<Longrightarrow> multinomial_draw n probas draw
     \<Longrightarrow> tomograph_experiment gen t n POVM True draw = Inr t'
     \<Longrightarrow> history gen t' (h @ [(n, draw)])"

text \<open>
  The spec's words for the merged measurement matrix, read literally: the
  measurement-count-weighted average of the two matrices, entry by entry.
\<close>

definition weighted_average :: "int \<Rightarrow> real mat \<Rightarrow> int \<Rightarrow> real mat \<Rightarrow> real mat" where
  "weighted_average m1 M1 m2 M2 =
     map2 (map2 (\<lambda>x y. real_of_int m1 / real_of_int (m1 + m2) * x
                        + real_of_int m2 / real_of_int (m1 + m2) * y)) M1 M2"

text \<open>\<^verbatim>\<open>la.norm(v, ord=2)\<close> of a vector.\<close>

definition norm2 :: "real list \<Rightarrow> real" where
  "norm2 v = sqrt (sum_list (map (\<lambda>x. x\<^sup>2) v))"

definition max_norm :: "nat \<Rightarrow> real" where
  "max_norm n = sqrt ((2 ^ n - 1) / 4 ^ n)"

definition is_feasible :: "real list \<Rightarrow> real" where
  "is_feasible bloch_vec =
     (let bloch_len = length bloch_vec + 1
      in sqrt (real bloch_len) - 1 - real bloch_len * sum_list (map (\<lambda>x. x\<^sup>2) bloch_vec))"

text \<open>
  A one-dimensional array of floats. \<open>Finite v\<close> is an array whose entries are all finite,
  idealised as the real numbers \<open>v\<close>. \<open>NonFinite k\<close> is an array of \<open>k\<close> entries of which
  none is finite (each is NaN or an infinity); such entries have no real value.
\<close>

datatype float_vec = Finite "real list" | NonFinite nat

text \<open>
  Lines 61 and 62: the raw linear-inversion estimate. \<^verbatim>\<open>_left_inv\<close> is not among the
  sources; it is the parameter \<open>left_inv\<close>, which may fail. Line 61 divides the counts by
  their sum. When the sum is zero and there is at least one count, numpy warns and every
  frequency is NaN or an infinity; the matrix product of line 62 still checks the shapes,
  and every entry of the product is then NaN or an infinity.
\<close>

definition lin_raw :: "(real mat \<Rightarrow> error + real mat) \<Rightarrow> tomograph \<Rightarrow> error + float_vec" where
  "lin_raw left_inv t =
     (case results t of
        None \<Rightarrow> Inl AttributeError
      | Some r \<Rightarrow>
          (case POVM_matrix t of
             None \<Rightarrow> Inl AttributeError
           | Some P \<Rightarrow>
               (case left_inv P of
                  Inl e \<Rightarrow> Inl e
                | Inr L \<Rightarrow>
                    (if sum_list r = 0 \<and> r \<noteq> []
                     then (if ncols L = length r then Inr (NonFinite (nrows L))
                           else Inl DimensionError)
                     else
                       (let frequencies = map (\<lambda>x. real_of_int x / real_of_int (sum_list r)) r
                        in case matvec L frequencies of
                             Inl e \<Rightarrow> Inl e
                           | Inr w \<Rightarrow> Inr (Finite (map (\<lambda>x. x / 2 ^ dim (state t)) w)))))))"

text \<open>
  \<^verbatim>\<open>_point_estimate_lin\<close>. \<^verbatim>\<open>scipy.linalg.norm\<close> checks its argument for NaN and
  infinities (\<^verbatim>\<open>check_finite\<close> is on by default) and raises \<^verbatim>\<open>ValueError\<close> when it finds
  one. Its argument \<^verbatim>\<open>bloch_vec[1:]\<close> has an entry exactly when \<^verbatim>\<open>bloch_vec\<close> has more than
  one; the norm of an empty array is zero. With \<^verbatim>\<open>physical=False\<close> the norm is not
  computed.
\<close>

definition point_estimate_lin ::
  "(real mat \<Rightarrow> error + real mat) \<Rightarrow> tomograph \<Rightarrow> bool \<Rightarrow> error + float_vec" where
  "point_estimate_lin left_inv t physical =
     (case lin_raw left_inv t of
        Inl e \<Rightarrow> Inl e
      | Inr (Finite bloch_vec) \<Rightarrow>
          (if physical \<and> norm2 (drop 1 bloch_vec) > max_norm (dim (state t))
           then Inr (Finite (take 1 bloch_vec @
                  map (\<lambda>x. x * (max_norm (dim (state t)) / norm2 (drop 1 bloch_vec)))
                      (drop 1 bloch_vec)))
           else Inr (Finite bloch_vec))
      | Inr (NonFinite k) \<Rightarrow>
          (if physical \<and> 1 < k
           then Inl (ValueError ''array must not contain infs or NaNs'')
           else Inr (NonFinite k)))"

text \<open>
  Modelled from the spec: \<^verbatim>\<open>SIGMA_I\<close> (\<^verbatim>\<open>routines.py\<close>) is the identity-like single-qubit
  operator, and \<^verbatim>\<open>Qobj.bloch\<close> (\<^verbatim>\<open>qobj.py\<close>) is the coordinate vector of an operator in
  the basis of the \<open>4^n\<close> tensor products of Pauli operators, with the first coordinate of a
  trace-one operator equal to \<open>1 / 2^n\<close>.
\<close>

definition SIGMA_I :: "complex mat" where
  "SIGMA_I = [[1, 0], [0, 1]]"

definition paulis :: "complex mat list" where
  "paulis = [[[1, 0], [0, 1]], [[0, 1], [1, 0]], [[0, - \<i>], [\<i>, 0]], [[1, 0], [0, - 1]]]"

fun pauli_basis :: "nat \<Rightarrow> complex mat list" where
  "pauli_basis 0 = [[[1]]]"
| "pauli_basis (Suc n) = concat (map (\<lambda>p. map (\<lambda>b. kron p b) (pauli_basis n)) paulis)"

definition trace_prod :: "complex mat \<Rightarrow> complex mat \<Rightarrow> complex" where
  "trace_prod A B =
     sum_list (map (\<lambda>i. sum_list (map (\<lambda>k. A ! i ! k * B ! k ! i) [0..<nrows B])) [0..<nrows A])"

definition qobj_bloch :: "complex mat \<Rightarrow> real list" where
  "qobj_bloch M =
     (let n = floorlog 2 (nrows M) - 1
      in map (\<lambda>P. Re (trace_prod M P) / 2 ^ n) (pauli_basis n))"

text \<open>Line 72: the starting point handed to the optimiser.\<close>

definition mle_x0 :: "real list" where
  "mle_x0 = drop 1 (qobj_bloch (smult (1 / 2) SIGMA_I))"

text \<open>
  Elementwise product of two one-dimensional arrays, with the broadcasting of a
  one-element array.
\<close>

definition np_mul :: "real list \<Rightarrow> real list \<Rightarrow> error + real list" where
  "np_mul xs ys =
     (if length xs = length ys then Inr (map2 (\<lambda>x y. x * y) xs ys)
      else if length xs = 1 then Inr (map (\<lambda>y. hd xs * y) ys)
      else if length ys = 1 then Inr (map (\<lambda>x. x * hd ys) xs)
      else Inl DimensionError)"

definition neg_log_likelihood :: "tomograph \<Rightarrow> real list \<Rightarrow> error + real" where
  "neg_log_likelihood t bloch_vec =
     (let eps = 1 / 10 ^ 10;
          bv = (1 / 2 ^ dim (state t)) # bloch_vec
      in case POVM_matrix t of
           None \<Rightarrow> Inl AttributeError
         | Some P \<Rightarrow>
             (case matvec P bv of
                Inl e \<Rightarrow> Inl e
              | Inr pv \<Rightarrow>
                  (let probas = map (\<lambda>x. x * 2 ^ dim (state t)) pv
                   in case results t of
                        None \<Rightarrow> Inl AttributeError
                      | Some r \<Rightarrow>
                          (case np_mul (map real_of_int r) (map (\<lambda>p. ln (p + eps)) probas) of
                             Inl e \<Rightarrow> Inl e
                           | Inr terms \<Rightarrow> Inr (- sum_list terms)))))"

text \<open>
  \<^verbatim>\<open>_point_estimate_mle\<close>. \<^verbatim>\<open>scipy.optimize.minimize\<close> is the parameter \<open>minimize\<close>: it
  receives the objective, the starting point and the constraint function, and returns the
  field \<^verbatim>\<open>x\<close> of its result, a vector of finite numbers, or fails.
\<close>

type_synonym optimizer =
  "(real list \<Rightarrow> error + real) \<Rightarrow> real list \<Rightarrow> (real list \<Rightarrow> real) \<Rightarrow> error + real list"

definition point_estimate_mle :: "optimizer \<Rightarrow> tomograph \<Rightarrow> bool \<Rightarrow> error + float_vec" where
  "point_estimate_mle minimize t physical =
     (let x0 = mle_x0
      in case minimize (neg_log_likelihood t) x0 is_feasible of
           Inl e \<Rightarrow> Inl e
         | Inr bloch_vec \<Rightarrow>
             (let bloch_vec' =
                    (if physical \<and> norm2 bloch_vec > max_norm (dim (state t))
                     then map (\<lambda>x. x * (max_norm (dim (state t)) / norm2 bloch_vec)) bloch_vec
                     else bloch_vec)
              in Inr (Finite ((1 / 2 ^ dim (state t)) # bloch_vec'))))"

definition point_estimate ::
  "(real mat \<Rightarrow> error + real mat) \<Rightarrow> optimizer \<Rightarrow> tomograph \<Rightarrow> string \<Rightarrow> bool
     \<Rightarrow> error + float_vec" where
  "point_estimate left_inv minimize t method physical =
     (if method = ''lin'' then point_estimate_lin left_inv t physical
      else point_estimate_mle minimize t physical)"

section \<open>Concrete inputs\<close>

text \<open>
  A one-qubit tomograph used to run the model: the true state is the maximally mixed state,
  the measurement scheme has two outcomes, and \<open>tomo1\<close> holds a first experiment of three
  measurements.
\<close>

abbreviation state1 :: qstate where
  "state1 \<equiv> \<lparr>dim = 1, bloch = [1 / 2, 0, 0, 0]\<rparr>"

abbreviation povm1 :: "real mat" where
  "povm1 \<equiv> [[1 / 2, 1 / 2, 0, 0], [1 / 2, - 1 / 2, 0, 0]]"

abbreviation gen1 :: "string \<Rightarrow> nat \<Rightarrow> error + real mat" where
  "gen1 \<equiv> (\<lambda>name n. Inr povm1)"

abbreviation tomo0 :: tomograph where
  "tomo0 \<equiv> \<lparr>state = state1, verbose = False, dst = hs_dst, POVM_matrix = None,
             results = None, n_measurements = None\<rparr>"

abbreviation tomo1 :: tomograph where
  "tomo1 \<equiv> \<lparr>state = state1, verbose = False, dst = hs_dst, POVM_matrix = Some povm1,
             results = Some [2, 1], n_measurements = Some 3\<rparr>"

text \<open>
  A stand-in for \<^verbatim>\<open>_left_inv\<close> whose raw estimate on \<open>tomo1\<close> lies outside the physical
  ball, and a two-qubit tomograph that holds one experiment.
\<close>

abbreviation left_inv1 :: "real mat \<Rightarrow> error + real mat" where
  "left_inv1 \<equiv> (\<lambda>M. Inr [[1, 1], [6, - 6], [0, 0], [0, 0]])"

abbreviation tomo2 :: tomograph where
  "tomo2 \<equiv> \<lparr>state = \<lparr>dim = 2, bloch = (1 / 4) # replicate 15 0\<rparr>, verbose = False,
             dst = hs_dst, POVM_matrix = Some [(1 / 4) # replicate 15 0],
             results = Some [1], n_measurements = Some 1\<rparr>"

text \<open>
  The tomograph after an experiment of zero measurements, and an optimiser that evaluates
  its objective at the starting point before it returns a point outside the physical ball.
\<close>

abbreviation tomo_zero :: tomograph where
  "tomo_zero \<equiv> \<lparr>state = state1, verbose = False, dst = hs_dst, POVM_matrix = Some povm1,
                 results = Some [0, 0], n_measurements = Some 0\<rparr>"

abbreviation minimize1 :: optimizer where
  "minimize1 \<equiv> (\<lambda>obj x0 con. case obj x0 of Inl e \<Rightarrow> Inl e | Inr y \<Rightarrow> Inr [1, 0, 0])"

section \<open>Basic facts\<close>

lemma mk_mat_nth: "i < r \<Longrightarrow> j < c \<Longrightarrow> mk_mat r c f ! i ! j = f i j"
  by (simp add: mk_mat_def)

section \<open>Channel: construction and the representation tags\<close>

lemma int_log2_half_log:
  "0 < s \<Longrightarrow> \<exists>k. int_log2_half s = Inr k \<and> int k = \<lfloor>log 2 (real s) / 2\<rfloor>"
proof -
  assume pos: "0 < s"
  have l0: "0 \<le> log 2 (real s)" using pos by simp
  have fl: "floorlog 2 s - 1 = nat \<lfloor>log 2 (real s)\<rfloor>"
    using pos by (simp add: floorlog_def)
  have "\<lfloor>log 2 (real s) / 2\<rfloor> = \<lfloor>log 2 (real s)\<rfloor> div 2"
    using floor_divide_real_eq_div[of 2 "log 2 (real s)"] by simp
  then show ?thesis using pos fl l0
    by (simp add: int_log2_half_def zdiv_int)
qed

lemma int_log2_half_pow4: "int_log2_half (4 ^ k) = Inr k"
proof -
  have "(4::nat) ^ k = 1 * 2 ^ (2 * k)" by (simp add: power_mult)
  then have "floorlog 2 ((4::nat) ^ k) = floorlog 2 1 + 2 * k"
    using floorlog_power[of 1 2 "2 * k"] by simp
  moreover have "floorlog 2 (1::nat) = 1" by (simp add: floorlog_def)
  ultimately show ?thesis by (simp add: int_log2_half_def)
qed

lemma choi_loop_frame:
  "u_types (fst (choi_loop c Es)) = u_types c \<and> u_func (fst (choi_loop c Es)) = u_func c
   \<and> n_qubits (fst (choi_loop c Es)) = n_qubits c"
proof (induction Es arbitrary: c)
  case Nil
  show ?case by simp
next
  case (Cons E Es)
  show ?case
  proof (cases "transform_cached c E")
    case (Inl e)
    then show ?thesis by simp
  next
    case (Inr out)
    show ?thesis
    proof (cases "u_choi c")
      case None
      then show ?thesis using Inr by simp
    next
      case (Some acc)
      show ?thesis
      proof (cases "madd acc (kron E out)")
        case (Inl e)
        then show ?thesis using Inr Some by simp
      next
        case (Inr acc')
        then show ?thesis
          using \<open>transform_cached c E = Inr out\<close> Some Cons.IH[of "c\<lparr>u_choi := Some acc'\<rparr>"]
          by simp
      qed
    qed
  qed
qed

lemma choi_types: "u_types (fst (choi c)) = insert ''choi'' (u_types c)"
proof (cases "''choi'' \<in> u_types c")
  case True
  then show ?thesis by (auto simp: choi_def)
next
  case False
  obtain c2 r where L: "choi_loop (c\<lparr>u_types := insert ''choi'' (u_types c),
         u_choi := Some (zeros (4 ^ n_qubits c) (4 ^ n_qubits c))\<rparr>)
         (generate_single_entries (2 ^ n_qubits c)) = (c2, r)"
    by (cases "choi_loop (c\<lparr>u_types := insert ''choi'' (u_types c),
         u_choi := Some (zeros (4 ^ n_qubits c) (4 ^ n_qubits c))\<rparr>)
         (generate_single_entries (2 ^ n_qubits c))") auto
  have "u_types c2 = insert ''choi'' (u_types c)"
    using choi_loop_frame[of "c\<lparr>u_types := insert ''choi'' (u_types c),
         u_choi := Some (zeros (4 ^ n_qubits c) (4 ^ n_qubits c))\<rparr>"
         "generate_single_entries (2 ^ n_qubits c)"] L by simp
  then show ?thesis using False L
    by (cases r) (simp_all add: choi_def Let_def)
qed

lemma choi_cached: "''choi'' \<in> u_types c \<Longrightarrow> choi c = (c, Inr (u_choi c))"
  by (simp add: choi_def)

text \<open>
  Inside the loop of the getter the tag \<^verbatim>\<open>'choi'\<close> is set, and there \<^verbatim>\<open>transform\<close> is
  \<open>transform_cached\<close> and leaves the channel as it is.
\<close>

lemma transform_in_loop:
  "''choi'' \<in> u_types c \<Longrightarrow> transform c s = (c, transform_cached c s)"
  by (simp add: transform_def transform_cached_def choi_cached)

lemma transform_valid:
  "''func'' \<in> u_types c \<or> ''choi'' \<in> u_types c \<Longrightarrow> fst (transform c s) = c"
  by (cases "''func'' \<in> u_types c") (simp_all add: transform_def choi_cached)

lemma init_types:
  "channel_init d n = Inr c \<Longrightarrow> u_types c \<noteq> {} \<and> u_types c \<subseteq> {''func'', ''choi''}"
  by (cases d; cases n) (auto simp: channel_init_def split: sum.splits)

lemma set_func_types:
  "u_types c \<subseteq> {''func'', ''choi''} \<Longrightarrow> u_types (set_func c f n) = {''func''}"
  by (auto simp: set_func_def)

lemma choi_setter_types:
  "u_types c \<subseteq> {''func'', ''choi''} \<Longrightarrow> u_types (fst (choi_setter c m)) = {''choi''}"
  by (cases "int_log2_half (nrows m)") (auto simp: choi_setter_def Let_def)

lemma choi_setter_choi: "u_choi (fst (choi_setter c m)) = Some m"
  by (cases "int_log2_half (nrows m)") (simp_all add: choi_setter_def Let_def)

lemma tag_present:
  "u_types c \<noteq> {} \<Longrightarrow> u_types c \<subseteq> {''func'', ''choi''}
     \<Longrightarrow> ''func'' \<in> u_types c \<or> ''choi'' \<in> u_types c"
  by blast

lemma reachable_types:
  "reachable c \<Longrightarrow> u_types c \<noteq> {} \<and> u_types c \<subseteq> {''func'', ''choi''}"
proof (induction rule: reachable.induct)
  case (r_init d n c)
  then show ?case by (rule init_types)
next
  case (r_set_func c f n)
  from r_set_func.IH have "u_types (set_func c f n) = {''func''}" by (simp add: set_func_types)
  then show ?case by simp
next
  case (r_choi_setter c m)
  from r_choi_setter.IH have "u_types (fst (choi_setter c m)) = {''choi''}"
    by (simp add: choi_setter_types)
  then show ?case by simp
next
  case (r_choi c)
  from r_choi.IH show ?case unfolding choi_types by blast
next
  case (r_loop c k)
  from r_loop.IH show ?case
    unfolding choi_loop_frame[THEN conjunct1] by (simp add: subset_iff)
next
  case (r_transform c s)
  from r_transform.IH have "''func'' \<in> u_types c \<or> ''choi'' \<in> u_types c"
    by (simp add: tag_present)
  then have "fst (transform c s) = c" by (rule transform_valid)
  then show ?case using r_transform.IH by simp
qed

section \<open>Claims on the channel\<close>

text \<open>
  Claim C8. Constructing a channel fails with the message that \<^verbatim>\<open>n_qubits\<close> is compulsory
  exactly when the data is callable and \<^verbatim>\<open>n_qubits\<close> is omitted, and with the message
  \<^verbatim>\<open>Invalid data format\<close> exactly when the data is neither callable nor an array nor a
  \<^verbatim>\<open>Qobj\<close>. For an array or a \<^verbatim>\<open>Qobj\<close> with at least one row the construction succeeds:
  only the tag \<^verbatim>\<open>'choi'\<close> is set, the matrix is stored, and the qubit count is the integer
  part of \<open>log2 (side length) / 2\<close>, which is \<open>k\<close> for a side length \<open>4^k\<close>.
\<close>

theorem channel_init_cases:
  "(channel_init d n = Inl (ValueError
        ''`n_qubits` argument is compulsory when using init with function'')
      \<longleftrightarrow> (\<exists>f. d = Callable f) \<and> n = None)
   \<and> (channel_init d n = Inl (ValueError ''Invalid data format'') \<longleftrightarrow> d = Other)
   \<and> ((d = NdArray m \<or> d = QobjData m) \<and> 0 < nrows m \<longrightarrow>
        (\<exists>c. channel_init d n = Inr c \<and> u_types c = {''choi''} \<and> u_choi c = Some m
             \<and> u_func c = None
             \<and> int (n_qubits c) = \<lfloor>log 2 (real (nrows m)) / 2\<rfloor>
             \<and> (\<forall>k. nrows m = 4 ^ k \<longrightarrow> n_qubits c = k)))"
proof (intro conjI impI)
  show "channel_init d n = Inl (ValueError
        ''`n_qubits` argument is compulsory when using init with function'')
      \<longleftrightarrow> (\<exists>f. d = Callable f) \<and> n = None"
    by (cases d; cases n) (auto simp: channel_init_def int_log2_half_def split: sum.splits)
  show "channel_init d n = Inl (ValueError ''Invalid data format'') \<longleftrightarrow> d = Other"
    by (cases d; cases n) (auto simp: channel_init_def int_log2_half_def split: sum.splits)
next
  assume A: "(d = NdArray m \<or> d = QobjData m) \<and> 0 < nrows m"
  then obtain k where k: "int_log2_half (nrows m) = Inr k"
    "int k = \<lfloor>log 2 (real (nrows m)) / 2\<rfloor>"
    using int_log2_half_log[of "nrows m"] by blast
  have p4: "\<forall>j. nrows m = 4 ^ j \<longrightarrow> k = j"
    using k(1) int_log2_half_pow4 by auto
  from A have "d = NdArray m \<or> d = QobjData m" by simp
  then show "\<exists>c. channel_init d n = Inr c \<and> u_types c = {''choi''} \<and> u_choi c = Some m
             \<and> u_func c = None
             \<and> int (n_qubits c) = \<lfloor>log 2 (real (nrows m)) / 2\<rfloor>
             \<and> (\<forall>k. nrows m = 4 ^ k \<longrightarrow> n_qubits c = k)"
    using k p4 by (auto simp: channel_init_def)
qed

text \<open>
  The three cases at concrete inputs: the identity function without a qubit count, a value
  of another kind, and the \<open>4 \<times> 4\<close> identity array.
\<close>

theorem channel_init_cases_witness:
  "channel_init (Callable (\<lambda>x. x)) None = Inl (ValueError
        ''`n_qubits` argument is compulsory when using init with function'')
   \<and> channel_init Other (Some 1) = Inl (ValueError ''Invalid data format'')
   \<and> (\<exists>c. channel_init (NdArray (eye 4)) None = Inr c \<and> u_types c = {''choi''}
          \<and> u_choi c = Some (eye 4) \<and> n_qubits c = 1)"
proof -
  have r: "nrows (eye 4 :: complex mat) = 4 ^ 1" by (simp add: nrows_def eye_def mk_mat_def)
  then have pos: "0 < nrows (eye 4 :: complex mat)" by simp
  from channel_init_cases[of "Callable (\<lambda>x. x)" None]
  have 1: "channel_init (Callable (\<lambda>x. x)) None = Inl (ValueError
        ''`n_qubits` argument is compulsory when using init with function'')" by blast
  from channel_init_cases[of Other "Some 1"]
  have 2: "channel_init Other (Some 1) = Inl (ValueError ''Invalid data format'')" by blast
  from channel_init_cases[of "NdArray (eye 4)" None "eye 4"] pos r
  have 3: "\<exists>c. channel_init (NdArray (eye 4)) None = Inr c \<and> u_types c = {''choi''}
          \<and> u_choi c = Some (eye 4) \<and> n_qubits c = 1" by blast
  from 1 2 3 show ?thesis by blast
qed

text \<open>
  Claim C5. Every reachable channel has at least one of the two tags and no other tag. On
  such a channel \<^verbatim>\<open>set_func\<close> leaves exactly the tag \<^verbatim>\<open>'func'\<close>, and a following
  \<^verbatim>\<open>transform\<close> applies the new function; assigning a Choi matrix leaves exactly the tag
  \<^verbatim>\<open>'choi'\<close> and stores the matrix, and a following \<^verbatim>\<open>transform\<close> goes through that
  matrix. Neither \<^verbatim>\<open>transform\<close> changes the channel.
\<close>

theorem representation_invariant:
  assumes "reachable c"
  shows "u_types c \<noteq> {} \<and> u_types c \<subseteq> {''func'', ''choi''}
     \<and> u_types (set_func c f n) = {''func''}
     \<and> transform (set_func c f n) s = (set_func c f n, Inr (f s))
     \<and> u_types (fst (choi_setter c m)) = {''choi''}
     \<and> u_choi (fst (choi_setter c m)) = Some m
     \<and> transform (fst (choi_setter c m)) s =
         (fst (choi_setter c m), choi_apply (n_qubits (fst (choi_setter c m))) (Some m) s)"
proof -
  from assms have T: "u_types c \<noteq> {}" "u_types c \<subseteq> {''func'', ''choi''}"
    using reachable_types by blast+
  have F: "u_types (set_func c f n) = {''func''}" using T(2) by (rule set_func_types)
  have C: "u_types (fst (choi_setter c m)) = {''choi''}" using T(2) by (rule choi_setter_types)
  have "u_func (set_func c f n) = Some f" by (simp add: set_func_def)
  then have TF: "transform (set_func c f n) s = (set_func c f n, Inr (f s))"
    using F by (simp add: transform_def)
  have TC: "transform (fst (choi_setter c m)) s =
         (fst (choi_setter c m), choi_apply (n_qubits (fst (choi_setter c m))) (Some m) s)"
    using C by (simp add: transform_def choi_cached choi_setter_choi)
  show ?thesis
    by (intro conjI) (rule T F C TF TC choi_setter_choi)+
qed

text \<open>
  A channel built from the identity function, then given a Choi matrix, then given a
  function again.
\<close>

theorem representation_invariant_witness:
  "u_types \<lparr>u_types = {''func''}, u_choi = None, u_func = Some (\<lambda>x. x), n_qubits = 1\<rparr> \<noteq> {}
   \<and> u_types (fst (choi_setter
         \<lparr>u_types = {''func''}, u_choi = None, u_func = Some (\<lambda>x. x), n_qubits = 1\<rparr>
         (eye 4))) = {''choi''}
   \<and> u_types (set_func (fst (choi_setter
         \<lparr>u_types = {''func''}, u_choi = None, u_func = Some (\<lambda>x. x), n_qubits = 1\<rparr>
         (eye 4))) mtranspose 1) = {''func''}"
proof -
  have "channel_init (Callable (\<lambda>x. x)) (Some 1)
      = Inr \<lparr>u_types = {''func''}, u_choi = None, u_func = Some (\<lambda>x. x), n_qubits = 1\<rparr>"
    by (simp add: channel_init_def)
  then have r0: "reachable \<lparr>u_types = {''func''}, u_choi = None, u_func = Some (\<lambda>x. x), n_qubits = 1\<rparr>"
    by (rule r_init)
  then have r1: "reachable (fst (choi_setter
         \<lparr>u_types = {''func''}, u_choi = None, u_func = Some (\<lambda>x. x), n_qubits = 1\<rparr> (eye 4)))"
    by (rule r_choi_setter)
  from representation_invariant[OF r0, of "\<lambda>x. x" 1 "[]" "eye 4"]
  have a: "u_types \<lparr>u_types = {''func''}, u_choi = None, u_func = Some (\<lambda>x. x), n_qubits = 1\<rparr> \<noteq> {}"
    and b: "u_types (fst (choi_setter
         \<lparr>u_types = {''func''}, u_choi = None, u_func = Some (\<lambda>x. x), n_qubits = 1\<rparr>
         (eye 4))) = {''choi''}"
    by (rule conjunct1, rule conjunct2[THEN conjunct2, THEN conjunct2, THEN conjunct2, THEN conjunct1])
  from representation_invariant[OF r1, of mtranspose 1 "[]" "eye 4"]
  have c: "u_types (set_func (fst (choi_setter
         \<lparr>u_types = {''func''}, u_choi = None, u_func = Some (\<lambda>x. x), n_qubits = 1\<rparr>
         (eye 4))) mtranspose 1) = {''func''}"
    by (rule conjunct2[THEN conjunct2, THEN conjunct1])
  from a b c show ?thesis by (intro conjI)
qed



text \<open>
  Claim C10. \<^verbatim>\<open>transform\<close> leaves a reachable channel unchanged: the tags, the cached Choi
  matrix, the function and the qubit count are those of before. On a channel with only the
  tag \<^verbatim>\<open>'func'\<close> no Choi matrix is computed or cached.
\<close>

theorem transform_frame:
  assumes "reachable c"
  shows "fst (transform c s) = c"
proof -
  from assms have "''func'' \<in> u_types c \<or> ''choi'' \<in> u_types c"
    using reachable_types tag_present by blast
  then show ?thesis by (rule transform_valid)
qed

text \<open>A channel built from the transposition map, applied to a \<open>2 \<times> 2\<close> matrix.\<close>

theorem transform_frame_witness:
  "fst (transform \<lparr>u_types = {''func''}, u_choi = None, u_func = Some mtranspose, n_qubits = 1\<rparr>
          [[1, 2], [3, 4]])
   = \<lparr>u_types = {''func''}, u_choi = None, u_func = Some mtranspose, n_qubits = 1\<rparr>"
proof -
  have "channel_init (Callable mtranspose) (Some 1)
      = Inr \<lparr>u_types = {''func''}, u_choi = None, u_func = Some mtranspose, n_qubits = 1\<rparr>"
    by (simp add: channel_init_def)
  then have "reachable \<lparr>u_types = {''func''}, u_choi = None, u_func = Some mtranspose, n_qubits = 1\<rparr>"
    by (rule r_init)
  then show ?thesis by (rule transform_frame)
qed

section \<open>Tomograph: experiments\<close>

lemma ncols_map: "ncols (map (map f) M) = ncols M"
  by (cases M) (simp_all add: ncols_def)

lemma warm_step:
  assumes "POVM_matrix t = Some M1" "n_measurements t = Some m1" "results t = Some r1"
    and "experiment_probas gen t POVM = Inr (M2, probas)"
    and "ncols M1 = ncols M2"
  shows "tomograph_experiment gen t m2 POVM True r2 =
     Inr (t\<lparr>POVM_matrix := Some
               (map (map (\<lambda>x. x * (real_of_int m1 / real_of_int (m1 + m2)))) M1 @
                map (map (\<lambda>x. x * (real_of_int m2 / real_of_int (m1 + m2)))) M2),
            results := Some (r1 @ r2),
            n_measurements := Some (m1 + m2)\<rparr>)"
  using assms by (simp add: tomograph_experiment_def vstack_def ncols_map)

lemma probas_length:
  "experiment_probas gen t POVM = Inr (P, probas) \<Longrightarrow> length probas = nrows P"
  by (auto simp: experiment_probas_def matvec_def nrows_def split: sum.splits if_splits)

lemma fresh_step:
  assumes "experiment_probas gen t POVM = Inr (P, probas)"
  shows "tomograph_experiment gen t n POVM False draw =
     Inr (t\<lparr>POVM_matrix := Some P, results := Some draw, n_measurements := Some n\<rparr>)"
  using assms by (simp add: tomograph_experiment_def)

lemma warm_result:
  assumes "tomograph_experiment gen t n POVM True draw = Inr t'"
    and "experiment_probas gen t POVM = Inr (P, probas)"
  shows "\<exists>M1 m1 r1 M'. POVM_matrix t = Some M1 \<and> n_measurements t = Some m1 \<and> results t = Some r1
     \<and> POVM_matrix t' = Some M' \<and> nrows M' = nrows M1 + nrows P
     \<and> results t' = Some (r1 @ draw) \<and> n_measurements t' = Some (m1 + n)"
  using assms
  by (auto simp: tomograph_experiment_def vstack_def nrows_def
           split: option.splits sum.splits if_splits)

lemma history_data:
  "history gen t h \<Longrightarrow>
     (h = [] \<longrightarrow> POVM_matrix t = None \<and> results t = None \<and> n_measurements t = None)
     \<and> (h \<noteq> [] \<longrightarrow> (\<exists>M. POVM_matrix t = Some M
           \<and> results t = Some (concat (map snd h))
           \<and> n_measurements t = Some (sum_list (map fst h))
           \<and> length (concat (map snd h)) = nrows M
           \<and> sum_list (concat (map snd h)) = sum_list (map fst h)))"
proof (induction rule: history.induct)
  case (h_init s d v t)
  then show ?case
    by (cases d) (auto simp: tomograph_init_def Let_def split: if_splits)
next
  case (h_fresh t h POVM P probas n draw t')
  from fresh_step[OF h_fresh(2), of n draw] h_fresh(4)
  have t': "t' = t\<lparr>POVM_matrix := Some P, results := Some draw, n_measurements := Some n\<rparr>"
    by simp
  have "length draw = nrows P" "sum_list draw = n"
    using h_fresh(3) probas_length[OF h_fresh(2)] by (simp_all add: multinomial_draw_def)
  then show ?case using t' by simp
next
  case (h_warm t h POVM P probas n draw t')
  from warm_result[OF h_warm(4) h_warm(2)] obtain M1 m1 r1 M' where
    W: "POVM_matrix t = Some M1" "n_measurements t = Some m1" "results t = Some r1"
       "POVM_matrix t' = Some M'" "nrows M' = nrows M1 + nrows P"
       "results t' = Some (r1 @ draw)" "n_measurements t' = Some (m1 + n)"
    by blast
  from W(1) h_warm.IH have ne: "h \<noteq> []" by auto
  with h_warm.IH W have old: "r1 = concat (map snd h)" "m1 = sum_list (map fst h)"
    "length r1 = nrows M1" "sum_list r1 = m1" by auto
  have dr: "length draw = nrows P" "sum_list draw = n"
    using h_warm(3) probas_length[OF h_warm(2)] by (simp_all add: multinomial_draw_def)
  show ?case using W old dr by simp
qed

lemma probas1: "experiment_probas gen1 tomo0 ''proj'' = Inr (povm1, [1 / 2, 1 / 2])"
  by code_simp

lemma probas1': "experiment_probas gen1 tomo1 ''proj'' = Inr (povm1, [1 / 2, 1 / 2])"
  by code_simp

section \<open>Claims on the experiments\<close>

text \<open>
  Claim C2, amended. On a tomograph that holds the matrix \<open>M1\<close>, the count \<open>m1\<close> and the
  outcomes \<open>r1\<close>, a call of \<^verbatim>\<open>experiment\<close> with \<^verbatim>\<open>warm_start=True\<close>, a new measurement matrix
  \<open>M2\<close> with as many columns as \<open>M1\<close>, a count \<open>m2\<close> with \<open>m1 + m2 > 0\<close> and a sample \<open>r2\<close>
  stores: the rows of \<open>M1\<close> scaled by \<open>m1 / (m1 + m2)\<close> followed by the rows of \<open>M2\<close> scaled by
  \<open>m2 / (m1 + m2)\<close>, the outcomes \<open>r1\<close> followed by \<open>r2\<close>, and the count \<open>m1 + m2\<close>. The two
  weighted blocks are stacked, not added.
\<close>

theorem warm_start_stack:
  assumes "POVM_matrix t = Some M1" "n_measurements t = Some m1" "results t = Some r1"
    and "experiment_probas gen t POVM = Inr (M2, probas)"
    and "ncols M1 = ncols M2"
    and "0 < m1 + m2"
  shows "tomograph_experiment gen t m2 POVM True r2 =
     Inr (t\<lparr>POVM_matrix := Some
               (map (map (\<lambda>x. x * (real_of_int m1 / real_of_int (m1 + m2)))) M1 @
                map (map (\<lambda>x. x * (real_of_int m2 / real_of_int (m1 + m2)))) M2),
            results := Some (r1 @ r2),
            n_measurements := Some (m1 + m2)\<rparr>)"
  using assms(1-5) by (rule warm_step)

text \<open>A second experiment of one measurement on \<open>tomo1\<close>.\<close>

theorem warm_start_stack_witness:
  "tomograph_experiment gen1 tomo1 1 ''proj'' True [0, 1] =
     Inr (tomo1\<lparr>POVM_matrix := Some
               (map (map (\<lambda>x. x * (real_of_int 3 / real_of_int (3 + 1)))) povm1 @
                map (map (\<lambda>x. x * (real_of_int 1 / real_of_int (3 + 1)))) povm1),
            results := Some ([2, 1] @ [0, 1]),
            n_measurements := Some (3 + 1)\<rparr>)"
proof -
  have 1: "POVM_matrix tomo1 = Some povm1" "n_measurements tomo1 = Some 3"
    "results tomo1 = Some [2, 1]" by simp_all
  have 2: "ncols povm1 = ncols povm1" by simp
  have 3: "(0::int) < 3 + 1" by simp
  from warm_start_stack[OF 1 probas1' 2 3, of "[0, 1]"] show ?thesis .
qed

text \<open>
  Claim C2 as stated fails: after the same call the stored matrix has four rows, and the
  entrywise weighted average of the two \<open>2 \<times> 4\<close> matrices has two.
\<close>

theorem warm_start_not_entrywise_average:
  "\<exists>t'. tomograph_experiment gen1 tomo1 1 ''proj'' True [0, 1] = Inr t'
     \<and> POVM_matrix t' \<noteq> Some (weighted_average 3 povm1 1 povm1)"
proof -
  have 1: "POVM_matrix tomo1 = Some povm1" "n_measurements tomo1 = Some 3"
    "results tomo1 = Some [2, 1]" by simp_all
  have 2: "ncols povm1 = ncols povm1" by simp
  note W = warm_step[OF 1 probas1' 2, of 1 "[0, 1]"]
  have "weighted_average 3 povm1 1 povm1 = povm1"
    by (simp add: weighted_average_def)
  then show ?thesis unfolding W by simp
qed

text \<open>
  Claim C4. A tomograph that results from the constructor and calls of \<^verbatim>\<open>experiment\<close> is
  either unexperimented, or it holds a measurement matrix, the outcomes of all calls since
  the last one without \<^verbatim>\<open>warm_start\<close> concatenated in call order, and the sum of their
  counts; the outcome vector is as long as the matrix has rows, and its entries add up to
  the stored count.
\<close>

theorem experiment_counts:
  assumes "history gen t h"
  shows "(h = [] \<and> POVM_matrix t = None \<and> results t = None \<and> n_measurements t = None)
     \<or> (\<exists>M. POVM_matrix t = Some M
           \<and> results t = Some (concat (map snd h))
           \<and> n_measurements t = Some (sum_list (map fst h))
           \<and> length (concat (map snd h)) = nrows M
           \<and> sum_list (concat (map snd h)) = sum_list (map fst h))"
  using history_data[OF assms] by (cases "h = []") simp_all

text \<open>
  A first experiment of three measurements and a warm-started one of one measurement.
\<close>

theorem experiment_counts_witness:
  "\<exists>t M. tomograph_experiment gen1 tomo1 1 ''proj'' True [0, 1] = Inr t
     \<and> POVM_matrix t = Some M
     \<and> results t = Some [2, 1, 0, 1] \<and> n_measurements t = Some 4
     \<and> length [2, 1, 0, 1 :: int] = nrows M \<and> sum_list [2, 1, 0, 1] = (4::int)"
proof -
  have i: "tomograph_init state1 (DstName ''hs'') False = Inr tomo0"
    by (simp add: tomograph_init_def)
  have h0: "history gen1 tomo0 []" using i by (rule h_init)
  have d1: "multinomial_draw 3 [1 / 2, 1 / 2] [2, 1]" by (simp add: multinomial_draw_def)
  have e1: "tomograph_experiment gen1 tomo0 3 ''proj'' False [2, 1] = Inr tomo1"
    using fresh_step[OF probas1, of 3 "[2, 1]"] by simp
  have h1: "history gen1 tomo1 [(3, [2, 1])]" using h0 probas1 d1 e1 by (rule h_fresh)
  have d2: "multinomial_draw 1 [1 / 2, 1 / 2] [0, 1]" by (simp add: multinomial_draw_def)
  have 1: "POVM_matrix tomo1 = Some povm1" "n_measurements tomo1 = Some 3"
    "results tomo1 = Some [2, 1]" by simp_all
  have 2: "ncols povm1 = ncols povm1" by simp
  note W = warm_step[OF 1 probas1' 2, of 1 "[0, 1]"]
  have h2: "history gen1 (tomo1\<lparr>POVM_matrix := Some
               (map (map (\<lambda>x. x * (real_of_int 3 / real_of_int (3 + 1)))) povm1 @
                map (map (\<lambda>x. x * (real_of_int 1 / real_of_int (3 + 1)))) povm1),
            results := Some ([2, 1] @ [0, 1]),
            n_measurements := Some (3 + 1)\<rparr>) ([(3, [2, 1])] @ [(1, [0, 1])])"
    using h1 probas1' d2 W by (rule h_warm)
  from experiment_counts[OF h2] W show ?thesis by auto
qed

section \<open>Tomograph: point estimates\<close>

lemma max_norm_nonneg: "0 \<le> max_norm n"
  by (simp add: max_norm_def)

lemma sum_sq_nonneg: "0 \<le> sum_list (map (\<lambda>x. x\<^sup>2) (u::real list))"
  by (induction u) simp_all

lemma norm2_nonneg: "0 \<le> norm2 u"
  by (simp add: norm2_def sum_sq_nonneg)

lemma sum_sq_scale:
  "sum_list (map (\<lambda>x. x\<^sup>2) (map (\<lambda>x. x * c) u)) = c\<^sup>2 * sum_list (map (\<lambda>x. x\<^sup>2) (u::real list))"
proof (induction u)
  case Nil
  show ?case by simp
next
  case (Cons a u)
  have "(a * c)\<^sup>2 + c\<^sup>2 * sum_list (map (\<lambda>x. x\<^sup>2) u)
      = c\<^sup>2 * (a\<^sup>2 + sum_list (map (\<lambda>x. x\<^sup>2) u))"
    by (simp add: power_mult_distrib algebra_simps)
  then show ?case using Cons by simp
qed

lemma norm2_scale: "norm2 (map (\<lambda>x. x * c) u) = \<bar>c\<bar> * norm2 u"
proof -
  have "norm2 (map (\<lambda>x. x * c) u) = sqrt (c\<^sup>2 * sum_list (map (\<lambda>x. x\<^sup>2) u))"
    unfolding norm2_def sum_sq_scale ..
  also have "\<dots> = \<bar>c\<bar> * norm2 u"
    by (simp add: norm2_def real_sqrt_mult)
  finally show ?thesis .
qed

lemma norm2_project:
  assumes "0 \<le> m" "m < norm2 u"
  shows "norm2 (map (\<lambda>x. x * (m / norm2 u)) u) = m"
proof -
  have pos: "0 < norm2 u" using assms by simp
  have "\<bar>m / norm2 u\<bar> = m / norm2 u" using assms pos by simp
  then have "norm2 (map (\<lambda>x. x * (m / norm2 u)) u) = m / norm2 u * norm2 u"
    using norm2_scale[of "m / norm2 u" u] by simp
  also have "\<dots> = m" using pos by simp
  finally show ?thesis .
qed

lemma rescaled_norm:
  assumes "max_norm n < norm2 u"
  shows "norm2 (map (\<lambda>x. x * (max_norm n / norm2 u)) u) = max_norm n"
  using max_norm_nonneg assms by (rule norm2_project)

lemma lin_finite:
  assumes "lin_raw left_inv t = Inr (Finite w)"
  shows "point_estimate_lin left_inv t True =
     Inr (Finite (if max_norm (dim (state t)) < norm2 (drop 1 w)
                  then take 1 w @ map (\<lambda>x. x * (max_norm (dim (state t)) / norm2 (drop 1 w)))
                                      (drop 1 w)
                  else w))"
  using assms by (simp add: point_estimate_lin_def)

lemma lin_nonfinite:
  assumes "lin_raw left_inv t = Inr (NonFinite k)"
  shows "point_estimate_lin left_inv t True =
     (if 1 < k then Inl (ValueError ''array must not contain infs or NaNs'')
      else Inr (NonFinite k))"
  using assms by (simp add: point_estimate_lin_def)

lemma lin_error:
  assumes "lin_raw left_inv t = Inl e"
  shows "point_estimate_lin left_inv t p = Inl e"
  using assms by (simp add: point_estimate_lin_def)

lemma lin_zero_counts:
  assumes "results t = Some r" "sum_list r = 0" "r \<noteq> []"
    and "POVM_matrix t = Some P" "left_inv P = Inr L" "ncols L = length r"
  shows "lin_raw left_inv t = Inr (NonFinite (nrows L))"
  using assms by (simp add: lin_raw_def)

lemma drop_rescaled:
  "drop 1 (take 1 w @ map f (drop 1 w)) = map f (drop 1 w)"
  by (cases w) simp_all

lemma lin_returned:
  assumes "point_estimate_lin left_inv t True = Inr est"
  shows "(\<exists>v. est = Finite v \<and> norm2 (drop 1 v) \<le> max_norm (dim (state t)))
     \<or> (\<exists>k. est = NonFinite k \<and> k \<le> 1)"
proof (cases "lin_raw left_inv t")
  case (Inl e)
  then show ?thesis using assms by (simp add: point_estimate_lin_def)
next
  case (Inr raw)
  show ?thesis
  proof (cases raw)
    case (Finite w)
    show ?thesis
    proof (cases "max_norm (dim (state t)) < norm2 (drop 1 w)")
      case True
      let ?v = "take 1 w @ map (\<lambda>x. x * (max_norm (dim (state t)) / norm2 (drop 1 w)))
                              (drop 1 w)"
      have e: "est = Finite ?v"
        using assms Inr Finite True lin_finite[of left_inv t w] by simp
      have n: "norm2 (drop 1 ?v) = max_norm (dim (state t))"
        unfolding drop_rescaled using True by (rule rescaled_norm)
      have le: "norm2 (drop 1 ?v) \<le> max_norm (dim (state t))"
        unfolding n by (rule order_refl)
      show ?thesis using e le by blast
    next
      case False
      then have "est = Finite w"
        using assms Inr Finite lin_finite[of left_inv t w] by simp
      then show ?thesis using False by simp
    qed
  next
    case (NonFinite k)
    have pe: "point_estimate_lin left_inv t True =
       (if 1 < k then Inl (ValueError ''array must not contain infs or NaNs'')
        else Inr (NonFinite k))"
      using Inr NonFinite by (simp add: lin_nonfinite)
    show ?thesis
    proof (cases "1 < k")
      case True
      then show ?thesis using assms pe by simp
    next
      case False
      then have "est = NonFinite k" and "k \<le> 1" using assms pe by simp_all
      then show ?thesis by blast
    qed
  qed
qed

lemma mle_finite:
  assumes "minimize (neg_log_likelihood t) mle_x0 is_feasible = Inr x"
  shows "point_estimate_mle minimize t True =
     Inr (Finite ((1 / 2 ^ dim (state t)) #
            (if max_norm (dim (state t)) < norm2 x
             then map (\<lambda>y. y * (max_norm (dim (state t)) / norm2 x)) x
             else x)))"
  using assms by (simp add: point_estimate_mle_def Let_def)

lemma mle_error:
  assumes "minimize (neg_log_likelihood t) mle_x0 is_feasible = Inl e"
  shows "point_estimate_mle minimize t p = Inl e"
  using assms by (simp add: point_estimate_mle_def Let_def)

lemma mle_returned:
  assumes "point_estimate_mle minimize t True = Inr est"
  shows "\<exists>v. est = Finite v \<and> norm2 (drop 1 v) \<le> max_norm (dim (state t))"
proof (cases "minimize (neg_log_likelihood t) mle_x0 is_feasible")
  case (Inl e)
  then show ?thesis using assms mle_error[of minimize t e True] by simp
next
  case (Inr x)
  show ?thesis
  proof (cases "max_norm (dim (state t)) < norm2 x")
    case True
    have "est = Finite ((1 / 2 ^ dim (state t)) #
              map (\<lambda>y. y * (max_norm (dim (state t)) / norm2 x)) x)"
      using assms True mle_finite[of minimize t x, OF Inr] by simp
    moreover have "norm2 (map (\<lambda>y. y * (max_norm (dim (state t)) / norm2 x)) x)
        = max_norm (dim (state t))"
      using True by (rule rescaled_norm)
    ultimately show ?thesis by simp
  next
    case False
    then have "est = Finite ((1 / 2 ^ dim (state t)) # x)"
      using assms mle_finite[of minimize t x, OF Inr] by simp
    then show ?thesis using False by simp
  qed
qed

lemma mle_x0_eval: "mle_x0 = [0, 0, 0]"
  by code_simp

lemma objective_needs_four_columns:
  assumes "neg_log_likelihood t mle_x0 = Inr y"
  shows "\<exists>P. POVM_matrix t = Some P \<and> ncols P = 4"
  using assms
  by (auto simp: neg_log_likelihood_def Let_def mle_x0_eval matvec_def
           split: option.splits sum.splits if_splits)

lemma point_estimate_other:
  "method \<noteq> ''lin'' \<Longrightarrow>
     point_estimate left_inv minimize t method p = point_estimate_mle minimize t p"
  by (simp add: point_estimate_def)

lemma lin_raw1: "lin_raw left_inv1 tomo1 = Inr (Finite [1 / 2, 1, 0, 0])"
  by code_simp

lemma lin_raw_zero: "lin_raw left_inv1 tomo_zero = Inr (NonFinite 4)"
  by code_simp

lemma exceeds1: "max_norm 1 < norm2 [1, 0, 0]"
  by (simp add: max_norm_def norm2_def real_sqrt_divide)

lemma objective1: "\<exists>y. neg_log_likelihood tomo1 mle_x0 = Inr y"
  by (simp add: neg_log_likelihood_def Let_def mle_x0_eval matvec_def ncols_def np_mul_def)

lemma lin_positive_counts:
  assumes "results t = Some r" "sum_list r \<noteq> 0"
    and "POVM_matrix t = Some P" "left_inv P = Inr L" "ncols L = length r"
  shows "\<exists>w. lin_raw left_inv t = Inr (Finite w) \<and> length w = nrows L"
  using assms by (simp add: lin_raw_def matvec_def nrows_def)

lemma init1: "tomograph_init state1 (DstName ''hs'') False = Inr tomo0"
  by (simp add: tomograph_init_def)

lemma draw_zero: "multinomial_draw 0 [1 / 2, 1 / 2] [0, 0]"
  by (simp add: multinomial_draw_def)

lemma experiment_zero:
  "tomograph_experiment gen1 tomo0 0 ''proj'' False [0, 0] = Inr tomo_zero"
  unfolding tomograph_experiment_def probas1 by simp

section \<open>Claims on the point estimates\<close>

text \<open>
  Claim C3, amended. Write \<open>n\<close> for the qubit count of the true state. The bound
  \<^verbatim>\<open>max_norm\<close> of the code is \<open>sqrt ((2^n - 1) / 4^n)\<close>. Whenever \<^verbatim>\<open>point_estimate\<close> returns
  with \<^verbatim>\<open>physical=True\<close> for the method \<^verbatim>\<open>'lin'\<close> or \<^verbatim>\<open>'mle'\<close>, the non-fixed part of the
  estimate (all coordinates but the first) has a Euclidean norm of at most that bound; an
  estimate with non-finite entries is returned only when it has no non-fixed coordinate.

  Linear inversion: when the raw estimate \<open>w\<close> is finite, the call returns; if the non-fixed
  part of \<open>w\<close> exceeds the bound, the first coordinate is kept and every other coordinate is
  multiplied by the bound over the norm, which puts the non-fixed part exactly on the
  bound, and otherwise \<open>w\<close> is returned unchanged. The raw estimate is finite when the
  counts do not add up to zero and the left inverse has one column per count. When the
  counts add up to zero the raw estimate is not finite, and the call raises \<^verbatim>\<open>ValueError\<close>
  as soon as there is a non-fixed coordinate. An error of the raw estimate is the error of
  the call.

  Maximum likelihood: when the optimiser returns \<open>x\<close>, the call returns \<open>1 / 2^n\<close> followed by
  \<open>x\<close>, rescaled in the same way if \<open>x\<close> exceeds the bound; when the optimiser fails, the call
  fails alike. The objective is defined at the starting point only if the stored matrix has
  four columns, so an optimiser that evaluates it there returns for one qubit only.
  Norms are those of real numbers.
\<close>

theorem physical_estimate_bound:
  "max_norm (dim (state t)) = sqrt ((2 ^ dim (state t) - 1) / 4 ^ dim (state t))
   \<and> (lin_raw left_inv t = Inr (Finite w) \<longrightarrow>
        point_estimate left_inv minimize t ''lin'' True =
          Inr (Finite (if max_norm (dim (state t)) < norm2 (drop 1 w)
                       then take 1 w @
                            map (\<lambda>x. x * (max_norm (dim (state t)) / norm2 (drop 1 w)))
                                (drop 1 w)
                       else w))
        \<and> (max_norm (dim (state t)) < norm2 (drop 1 w) \<longrightarrow>
             norm2 (map (\<lambda>x. x * (max_norm (dim (state t)) / norm2 (drop 1 w))) (drop 1 w))
               = sqrt ((2 ^ dim (state t) - 1) / 4 ^ dim (state t))))
   \<and> (lin_raw left_inv t = Inr (NonFinite k) \<longrightarrow>
        point_estimate left_inv minimize t ''lin'' True =
          (if 1 < k then Inl (ValueError ''array must not contain infs or NaNs'')
           else Inr (NonFinite k)))
   \<and> (results t = Some r \<and> sum_list r = 0 \<and> r \<noteq> [] \<and> POVM_matrix t = Some P
        \<and> left_inv P = Inr L \<and> ncols L = length r \<longrightarrow>
        lin_raw left_inv t = Inr (NonFinite (nrows L)))
   \<and> (results t = Some r \<and> sum_list r \<noteq> 0 \<and> POVM_matrix t = Some P
        \<and> left_inv P = Inr L \<and> ncols L = length r \<longrightarrow>
        (\<exists>u. lin_raw left_inv t = Inr (Finite u) \<and> length u = nrows L))
   \<and> (lin_raw left_inv t = Inl e1 \<longrightarrow>
        point_estimate left_inv minimize t ''lin'' True = Inl e1)
   \<and> (minimize (neg_log_likelihood t) mle_x0 is_feasible = Inr x \<longrightarrow>
        point_estimate left_inv minimize t ''mle'' True =
          Inr (Finite ((1 / 2 ^ dim (state t)) #
                 (if max_norm (dim (state t)) < norm2 x
                  then map (\<lambda>y. y * (max_norm (dim (state t)) / norm2 x)) x
                  else x)))
        \<and> (max_norm (dim (state t)) < norm2 x \<longrightarrow>
             norm2 (map (\<lambda>y. y * (max_norm (dim (state t)) / norm2 x)) x)
               = sqrt ((2 ^ dim (state t) - 1) / 4 ^ dim (state t))))
   \<and> (minimize (neg_log_likelihood t) mle_x0 is_feasible = Inl e2 \<longrightarrow>
        point_estimate left_inv minimize t ''mle'' True = Inl e2)
   \<and> (neg_log_likelihood t mle_x0 = Inr y \<longrightarrow> (\<exists>Q. POVM_matrix t = Some Q \<and> ncols Q = 4))
   \<and> ((method = ''lin'' \<or> method = ''mle'')
        \<and> point_estimate left_inv minimize t method True = Inr est \<longrightarrow>
        (\<exists>v. est = Finite v
            \<and> norm2 (drop 1 v) \<le> sqrt ((2 ^ dim (state t) - 1) / 4 ^ dim (state t)))
        \<or> (\<exists>j. est = NonFinite j \<and> j \<le> 1))"
proof (intro conjI impI)
  show "max_norm (dim (state t)) = sqrt ((2 ^ dim (state t) - 1) / 4 ^ dim (state t))"
    by (simp add: max_norm_def)
next
  assume "lin_raw left_inv t = Inr (Finite w)"
  then show "point_estimate left_inv minimize t ''lin'' True =
          Inr (Finite (if max_norm (dim (state t)) < norm2 (drop 1 w)
                       then take 1 w @
                            map (\<lambda>x. x * (max_norm (dim (state t)) / norm2 (drop 1 w)))
                                (drop 1 w)
                       else w))"
    by (simp add: point_estimate_def lin_finite)
next
  assume "max_norm (dim (state t)) < norm2 (drop 1 w)"
  then show "norm2 (map (\<lambda>x. x * (max_norm (dim (state t)) / norm2 (drop 1 w))) (drop 1 w))
               = sqrt ((2 ^ dim (state t) - 1) / 4 ^ dim (state t))"
    using rescaled_norm[of "dim (state t)" "drop 1 w"] by (simp add: max_norm_def)
next
  assume "lin_raw left_inv t = Inr (NonFinite k)"
  then show "point_estimate left_inv minimize t ''lin'' True =
          (if 1 < k then Inl (ValueError ''array must not contain infs or NaNs'')
           else Inr (NonFinite k))"
    by (simp add: point_estimate_def lin_nonfinite)
next
  assume "results t = Some r \<and> sum_list r = 0 \<and> r \<noteq> [] \<and> POVM_matrix t = Some P
        \<and> left_inv P = Inr L \<and> ncols L = length r"
  then show "lin_raw left_inv t = Inr (NonFinite (nrows L))"
    by (simp add: lin_zero_counts)
next
  assume "results t = Some r \<and> sum_list r \<noteq> 0 \<and> POVM_matrix t = Some P
        \<and> left_inv P = Inr L \<and> ncols L = length r"
  then show "\<exists>u. lin_raw left_inv t = Inr (Finite u) \<and> length u = nrows L"
    using lin_positive_counts[of t r P left_inv L] by blast
next
  assume "lin_raw left_inv t = Inl e1"
  then show "point_estimate left_inv minimize t ''lin'' True = Inl e1"
    by (simp add: point_estimate_def lin_error)
next
  assume "minimize (neg_log_likelihood t) mle_x0 is_feasible = Inr x"
  then show "point_estimate left_inv minimize t ''mle'' True =
          Inr (Finite ((1 / 2 ^ dim (state t)) #
                 (if max_norm (dim (state t)) < norm2 x
                  then map (\<lambda>y. y * (max_norm (dim (state t)) / norm2 x)) x
                  else x)))"
    using mle_finite[of minimize t x] by (simp add: point_estimate_def)
next
  assume "max_norm (dim (state t)) < norm2 x"
  then show "norm2 (map (\<lambda>y. y * (max_norm (dim (state t)) / norm2 x)) x)
               = sqrt ((2 ^ dim (state t) - 1) / 4 ^ dim (state t))"
    using rescaled_norm[of "dim (state t)" x] by (simp add: max_norm_def)
next
  assume "minimize (neg_log_likelihood t) mle_x0 is_feasible = Inl e2"
  then show "point_estimate left_inv minimize t ''mle'' True = Inl e2"
    using mle_error[of minimize t e2 True] by (simp add: point_estimate_def)
next
  assume "neg_log_likelihood t mle_x0 = Inr y"
  then show "\<exists>Q. POVM_matrix t = Some Q \<and> ncols Q = 4"
    by (rule objective_needs_four_columns)
next
  assume A: "(method = ''lin'' \<or> method = ''mle'')
        \<and> point_estimate left_inv minimize t method True = Inr est"
  have m: "max_norm (dim (state t)) = sqrt ((2 ^ dim (state t) - 1) / 4 ^ dim (state t))"
    by (simp add: max_norm_def)
  show "(\<exists>v. est = Finite v
            \<and> norm2 (drop 1 v) \<le> sqrt ((2 ^ dim (state t) - 1) / 4 ^ dim (state t)))
        \<or> (\<exists>j. est = NonFinite j \<and> j \<le> 1)"
  proof (cases "method = ''lin''")
    case True
    with A have "point_estimate_lin left_inv t True = Inr est"
      by (simp add: point_estimate_def)
    from lin_returned[OF this] show ?thesis unfolding m .
  next
    case False
    with A have "point_estimate_mle minimize t True = Inr est"
      by (simp add: point_estimate_def)
    from mle_returned[OF this] show ?thesis unfolding m by blast
  qed
qed

text \<open>
  On \<open>tomo1\<close> the raw linear-inversion estimate is finite, with four coordinates, and it and
  the result of the optimiser, which has evaluated its objective on the four-column matrix,
  both lie outside the ball; both estimates come back with a non-fixed part exactly on the
  bound \<open>sqrt (1 / 4)\<close>. After an experiment of zero measurements the raw estimate is not
  finite and linear inversion raises. A failing left inverse and a failing optimiser give
  their errors to the call.
\<close>

theorem physical_estimate_bound_witness:
  "(\<exists>v. point_estimate left_inv1 minimize1 tomo1 ''lin'' True = Inr (Finite v)
       \<and> norm2 (drop 1 v) = sqrt ((2 ^ 1 - 1) / 4 ^ 1)
       \<and> norm2 (drop 1 v) \<le> sqrt ((2 ^ 1 - 1) / 4 ^ 1))
   \<and> (\<exists>v. point_estimate left_inv1 minimize1 tomo1 ''mle'' True = Inr (Finite v)
       \<and> norm2 (drop 1 v) = sqrt ((2 ^ 1 - 1) / 4 ^ 1))
   \<and> point_estimate left_inv1 minimize1 tomo_zero ''lin'' True
       = Inl (ValueError ''array must not contain infs or NaNs'')
   \<and> lin_raw left_inv1 tomo_zero = Inr (NonFinite 4)
   \<and> (\<exists>u. lin_raw left_inv1 tomo1 = Inr (Finite u) \<and> length u = 4)
   \<and> point_estimate (\<lambda>M. Inl DimensionError) (\<lambda>obj x0 con. Inl OverflowError) tomo1
        ''lin'' True = Inl DimensionError
   \<and> point_estimate (\<lambda>M. Inl DimensionError) (\<lambda>obj x0 con. Inl OverflowError) tomo1
        ''mle'' True = Inl OverflowError
   \<and> (\<exists>Q. POVM_matrix tomo1 = Some Q \<and> ncols Q = 4)"
proof -
  let ?v = "take 1 [1 / 2, 1, 0, 0] @
            map (\<lambda>x. x * (max_norm 1 / norm2 (drop 1 [1 / 2, 1, 0, 0 :: real])))
                (drop 1 [1 / 2, 1, 0, 0])"
  obtain y where y: "neg_log_likelihood tomo1 mle_x0 = Inr y"
    using objective1 by blast
  note T = physical_estimate_bound[of tomo1 left_inv1 "[1 / 2, 1, 0, 0]" minimize1 4
      "[2, 1]" povm1 "[[1, 1], [6, - 6], [0, 0], [0, 0]]" DimensionError "[1, 0, 0]"
      DimensionError y "''lin''" "Finite ?v"]
  note Z = physical_estimate_bound[of tomo_zero left_inv1 "[]" minimize1 4
      "[0, 0]" povm1 "[[1, 1], [6, - 6], [0, 0], [0, 0]]" DimensionError "[]"
      DimensionError 0 "''lin''" "Finite []"]
  note E = physical_estimate_bound[of tomo1 "\<lambda>M. Inl DimensionError" "[]"
      "\<lambda>obj x0 con. Inl OverflowError" 0 "[2, 1]" povm1 "[]" DimensionError "[]"
      OverflowError 0 "''lin''" "Finite []"]
  have d: "dim (state tomo1) = 1" by simp
  have nr: "nrows [[1, 1], [6, - 6], [0, 0], [0, 0 :: real]] = 4" by (simp add: nrows_def)
  have e: "max_norm 1 < norm2 (drop 1 [1 / 2, 1, 0, 0])" using exceeds1 by simp
  have o: "minimize1 (neg_log_likelihood tomo1) mle_x0 is_feasible = Inr [1, 0, 0]"
    using objective1 by auto
  have a1: "point_estimate left_inv1 minimize1 tomo1 ''lin'' True = Inr (Finite ?v)"
    and a2: "norm2 (map (\<lambda>x. x * (max_norm 1 / norm2 (drop 1 [1 / 2, 1, 0, 0 :: real])))
                (drop 1 [1 / 2, 1, 0, 0])) = sqrt ((2 ^ 1 - 1) / 4 ^ 1)"
    using T[THEN conjunct2, THEN conjunct1] lin_raw1 e unfolding d by simp_all
  have a3: "norm2 (drop 1 ?v) = sqrt ((2 ^ 1 - 1) / 4 ^ 1)"
    unfolding drop_rescaled by (rule a2)
  have a4: "norm2 (drop 1 ?v) \<le> sqrt ((2 ^ 1 - 1) / 4 ^ 1)"
    using T[THEN conjunct2, THEN conjunct2, THEN conjunct2, THEN conjunct2, THEN conjunct2,
            THEN conjunct2, THEN conjunct2, THEN conjunct2, THEN conjunct2] a1
    unfolding d by simp
  have a: "\<exists>v. point_estimate left_inv1 minimize1 tomo1 ''lin'' True = Inr (Finite v)
       \<and> norm2 (drop 1 v) = sqrt ((2 ^ 1 - 1) / 4 ^ 1)
       \<and> norm2 (drop 1 v) \<le> sqrt ((2 ^ 1 - 1) / 4 ^ 1)"
    using a1 a3 a4 by blast
  have b: "\<exists>v. point_estimate left_inv1 minimize1 tomo1 ''mle'' True = Inr (Finite v)
       \<and> norm2 (drop 1 v) = sqrt ((2 ^ 1 - 1) / 4 ^ 1)"
    using T[THEN conjunct2, THEN conjunct2, THEN conjunct2, THEN conjunct2, THEN conjunct2,
            THEN conjunct2, THEN conjunct1] o exceeds1 unfolding d
    by simp
  have c: "point_estimate left_inv1 minimize1 tomo_zero ''lin'' True
       = Inl (ValueError ''array must not contain infs or NaNs'')"
    using Z[THEN conjunct2, THEN conjunct2, THEN conjunct1] lin_raw_zero by simp
  have z: "lin_raw left_inv1 tomo_zero = Inr (NonFinite 4)"
    using Z[THEN conjunct2, THEN conjunct2, THEN conjunct2, THEN conjunct1]
    by (simp add: ncols_def nrows_def)
  have p: "\<exists>u. lin_raw left_inv1 tomo1 = Inr (Finite u) \<and> length u = 4"
    using T[THEN conjunct2, THEN conjunct2, THEN conjunct2, THEN conjunct2, THEN conjunct1]
    unfolding nr by (simp add: ncols_def)
  have r: "lin_raw (\<lambda>M. Inl DimensionError) tomo1 = Inl DimensionError"
    by (simp add: lin_raw_def)
  have e1: "point_estimate (\<lambda>M. Inl DimensionError) (\<lambda>obj x0 con. Inl OverflowError) tomo1
        ''lin'' True = Inl DimensionError"
    using E[THEN conjunct2, THEN conjunct2, THEN conjunct2, THEN conjunct2, THEN conjunct2,
            THEN conjunct1] r by simp
  have e2: "point_estimate (\<lambda>M. Inl DimensionError) (\<lambda>obj x0 con. Inl OverflowError) tomo1
        ''mle'' True = Inl OverflowError"
    using E[THEN conjunct2, THEN conjunct2, THEN conjunct2, THEN conjunct2, THEN conjunct2,
            THEN conjunct2, THEN conjunct2, THEN conjunct1] by simp
  have q: "\<exists>Q. POVM_matrix tomo1 = Some Q \<and> ncols Q = 4"
    using T[THEN conjunct2, THEN conjunct2, THEN conjunct2, THEN conjunct2, THEN conjunct2,
            THEN conjunct2, THEN conjunct2, THEN conjunct2, THEN conjunct1] y by blast
  from a b c z p e1 e2 q show ?thesis by (intro conjI)
qed

text \<open>
  Claim C3 as stated fails: an experiment may consist of zero measurements. On the
  tomograph that the constructor and one such call leave behind, the counts add up to
  zero, the frequencies are not finite, and \<^verbatim>\<open>point_estimate\<close> with the method \<^verbatim>\<open>'lin'\<close> and
  \<^verbatim>\<open>physical=True\<close> raises \<^verbatim>\<open>ValueError\<close> where the claim has it return an estimate.
\<close>

theorem zero_counts_estimate_raises:
  "tomograph_init state1 (DstName ''hs'') False = Inr tomo0
   \<and> multinomial_draw 0 [1 / 2, 1 / 2] [0, 0]
   \<and> tomograph_experiment gen1 tomo0 0 ''proj'' False [0, 0] = Inr tomo_zero
   \<and> point_estimate left_inv1 minimize1 tomo_zero ''lin'' True
       = Inl (ValueError ''array must not contain infs or NaNs'')"
proof -
  have "point_estimate left_inv1 minimize1 tomo_zero ''lin'' True
       = Inl (ValueError ''array must not contain infs or NaNs'')"
    unfolding point_estimate_def point_estimate_lin_def lin_raw_zero by simp
  then show ?thesis using init1 draw_zero experiment_zero by simp
qed

text \<open>
  Claim C6 fails on the code: \<^verbatim>\<open>point_estimate\<close> compares the method with \<^verbatim>\<open>'lin'\<close> only,
  and every other key runs the maximum-likelihood estimator. With an optimiser that returns
  its starting point, the key \<^verbatim>\<open>'bogus'\<close> yields an estimate and no error.
\<close>

theorem unknown_method_runs_mle:
  "point_estimate left_inv1 (\<lambda>obj x0 con. Inr x0) tomo1 ''bogus'' True
     = Inr (Finite [1 / 2, 0, 0, 0])"
proof -
  have "\<not> max_norm 1 < norm2 [0, 0, 0]"
    using max_norm_nonneg[of 1] by (simp add: norm2_def)
  then show ?thesis
    by (simp add: point_estimate_def point_estimate_mle_def mle_x0_eval Let_def)
qed

text \<open>
  Claim C7 fails on the code for more than one qubit: the starting point is taken from the
  single-qubit operator \<^verbatim>\<open>SIGMA_I\<close>, so it always has three coordinates. For the
  two-qubit tomograph \<open>tomo2\<close> the claim asks for fifteen; the objective fails on the
  three-coordinate vector with a dimension error, and an optimiser that returns its
  starting point yields a four-coordinate estimate.
\<close>

theorem mle_start_is_single_qubit:
  "mle_x0 = [0, 0, 0]
   \<and> length mle_x0 \<noteq> 4 ^ dim (state tomo2) - 1
   \<and> neg_log_likelihood tomo2 mle_x0 = Inl DimensionError
   \<and> point_estimate_mle (\<lambda>obj x0 con. Inr x0) tomo2 True = Inr (Finite [1 / 4, 0, 0, 0])"
proof -
  have n: "\<not> max_norm 2 < norm2 [0, 0, 0]"
    using max_norm_nonneg[of 2] by (simp add: norm2_def)
  have a: "neg_log_likelihood tomo2 [0, 0, 0] = Inl DimensionError"
    by (simp add: neg_log_likelihood_def matvec_def ncols_def)
  have b: "point_estimate_mle (\<lambda>obj x0 con. Inr x0) tomo2 True
      = Inr (Finite [1 / 4, 0, 0, 0])"
    using n by (simp add: point_estimate_mle_def mle_x0_eval Let_def)
  show ?thesis using a b by (simp add: mle_x0_eval)
qed

section \<open>Matrices, entry by entry\<close>

lemma is_mat_mk: "is_mat r c (mk_mat r c f)"
  by (simp add: is_mat_def mk_mat_def list_all_iff)

lemma is_mat_nrows: "is_mat r c M \<Longrightarrow> nrows M = r"
  by (simp add: is_mat_def nrows_def)

lemma is_mat_row: "is_mat r c M \<Longrightarrow> i < r \<Longrightarrow> length (M ! i) = c"
  by (simp add: is_mat_def list_all_length)

lemma is_mat_ncols: "is_mat r c M \<Longrightarrow> 0 < r \<Longrightarrow> ncols M = c"
  by (cases M) (auto simp: is_mat_def ncols_def)

lemma mat_ext:
  assumes "is_mat r c A" "is_mat r c B"
    and "\<And>i j. i < r \<Longrightarrow> j < c \<Longrightarrow> A ! i ! j = B ! i ! j"
  shows "A = B"
proof (rule nth_equalityI)
  show "length A = length B" using assms(1,2) by (simp add: is_mat_def)
next
  fix i assume "i < length A"
  then have i: "i < r" using assms(1) by (simp add: is_mat_def)
  show "A ! i = B ! i"
  proof (rule nth_equalityI)
    show "length (A ! i) = length (B ! i)"
      using is_mat_row[OF assms(1) i] is_mat_row[OF assms(2) i] by simp
  next
    fix j assume "j < length (A ! i)"
    then have "j < c" using is_mat_row[OF assms(1) i] by simp
    then show "A ! i ! j = B ! i ! j" using assms(3) i by simp
  qed
qed

lemma sum_list_upt: "sum_list (map g [0..<m]) = sum g {..<m}"
  by (simp add: interv_sum_list_conv_sum_set_nat atLeast0LessThan)

lemma sum_divmod:
  fixes G :: "nat \<Rightarrow> nat \<Rightarrow> 'a::comm_monoid_add"
  assumes "0 < d"
  shows "(\<Sum>k<m * d. G (k div d) (k mod d)) = (\<Sum>i<m. \<Sum>j<d. G i j)"
proof -
  have "(\<Sum>i<m. \<Sum>j<d. G i j) = (\<Sum>i<m. \<Sum>k = i * d..<i * d + d. G (k div d) (k mod d))"
  proof (rule sum.cong[OF refl])
    fix i
    show "(\<Sum>j<d. G i j) = (\<Sum>k = i * d..<i * d + d. G (k div d) (k mod d))"
      by (rule sum.reindex_bij_witness[where i = "\<lambda>k. k - i * d" and j = "\<lambda>j. i * d + j"])
         (auto simp: assms)
  qed
  also have "\<dots> = (\<Sum>k<m * d. G (k div d) (k mod d))"
    by (rule sum.nat_group)
  finally show ?thesis by simp
qed

lemma div_mod_rebuild: "(x::nat) mod d = a \<Longrightarrow> x div d * d + a = x"
  using div_mult_mod_eq[of x d] by simp

lemma div_mod_rebuild2: "(x::nat) mod d = a \<Longrightarrow> x div d = h \<Longrightarrow> h * d + a = x"
  using div_mult_mod_eq[of x d] by simp

lemma sum_mod_select:
  fixes T :: "nat \<Rightarrow> 'a::comm_monoid_add"
  assumes "0 < d" "a < d"
  shows "(\<Sum>k<m * d. if k mod d = a then T k else 0) = (\<Sum>i<m. T (i * d + a))"
proof -
  have "(\<Sum>k<m * d. if k mod d = a then T k else 0)
      = (\<Sum>k<m * d. (\<lambda>h l. if l = a then T (h * d + l) else 0) (k div d) (k mod d))"
    by (rule sum.cong[OF refl]) (simp add: div_mod_rebuild)
  also have "\<dots> = (\<Sum>i<m. \<Sum>j<d. if j = a then T (i * d + j) else 0)"
    by (rule sum_divmod[OF assms(1)])
  also have "\<dots> = (\<Sum>i<m. T (i * d + a))"
    using assms(2) by (simp add: sum.delta)
  finally show ?thesis .
qed

lemma sum_pick:
  fixes T :: "nat \<Rightarrow> 'a::comm_monoid_add"
  assumes "h < m" "b < d"
  shows "(\<Sum>c<m * d. if c mod d = b \<and> c div d = h then T c else 0) = T (h * d + b)"
proof -
  have d: "0 < d" using assms by simp
  have "(\<Sum>c<m * d. if c mod d = b \<and> c div d = h then T c else 0)
      = (\<Sum>c<m * d. (\<lambda>i j. if j = b \<and> i = h then T (i * d + j) else 0) (c div d) (c mod d))"
    by (rule sum.cong[OF refl]) (auto simp: div_mod_rebuild2)
  also have "\<dots> = (\<Sum>i<m. \<Sum>j<d. if j = b \<and> i = h then T (i * d + j) else 0)"
    by (rule sum_divmod[OF d])
  also have "\<dots> = (\<Sum>i<m. if i = h then T (i * d + b) else 0)"
  proof (rule sum.cong[OF refl])
    fix i
    have "(\<Sum>j<d. if j = b \<and> i = h then T (i * d + j) else 0)
        = (\<Sum>j<d. if j = b then (if i = h then T (i * d + j) else 0) else 0)"
      by (rule sum.cong[OF refl]) simp
    also have "\<dots> = (if i = h then T (i * d + b) else 0)"
      using assms(2) by (simp add: sum.delta)
    finally show "(\<Sum>j<d. if j = b \<and> i = h then T (i * d + j) else 0)
        = (if i = h then T (i * d + b) else 0)" .
  qed
  also have "\<dots> = T (h * d + b)"
    using assms(1) by (simp add: sum.delta)
  finally show ?thesis .
qed

section \<open>The lazy construction of the Choi matrix\<close>

lemma kron_is_mat:
  assumes "is_mat d d A" "is_mat d d B" "0 < d"
  shows "is_mat (d * d) (d * d) (kron A B)"
  using assms by (simp add: kron_def is_mat_nrows is_mat_ncols is_mat_mk)

lemma kron_nth:
  assumes "is_mat d d A" "is_mat d d B" "0 < d" "i < d * d" "j < d * d"
  shows "kron A B ! i ! j = A ! (i div d) ! (j div d) * B ! (i mod d) ! (j mod d)"
  using assms by (simp add: kron_def is_mat_nrows is_mat_ncols mk_mat_nth)

lemma mat_plus_is_mat:
  assumes "is_mat r c A" "0 < r"
  shows "is_mat r c (mat_plus A B)"
  using assms by (simp add: mat_plus_def is_mat_nrows is_mat_ncols is_mat_mk)

lemma mat_plus_nth:
  assumes "is_mat r c A" "0 < r" "i < r" "j < c"
  shows "mat_plus A B ! i ! j = A ! i ! j + B ! i ! j"
  using assms by (simp add: mat_plus_def is_mat_nrows is_mat_ncols mk_mat_nth)

lemma madd_ok:
  assumes "is_mat r c A" "is_mat r c B" "0 < r"
  shows "madd A B = Inr (mat_plus A B)"
  using assms by (simp add: madd_def is_mat_nrows is_mat_ncols)

lemma single_entry_is_mat: "is_mat d d (single_entry d i j)"
  by (simp add: single_entry_def is_mat_mk)

lemma single_entry_nth:
  "a < d \<Longrightarrow> b < d \<Longrightarrow> single_entry d i j ! a ! b = (if a = i \<and> b = j then 1 else 0)"
  by (simp add: single_entry_def mk_mat_nth)

lemma zeros_is_mat: "is_mat r c (zeros r c)"
  by (simp add: zeros_def is_mat_mk)

lemma zeros_nth: "i < r \<Longrightarrow> j < c \<Longrightarrow> zeros r c ! i ! j = 0"
  by (simp add: zeros_def mk_mat_nth)

lemma linear_on_shape: "linear_on d f \<Longrightarrow> is_mat d d A \<Longrightarrow> is_mat d d (f A)"
  by (simp add: linear_on_def)

lemma choi_loop_sum:
  assumes "0 < d" "linear_on d f" "''func'' \<in> u_types c" "u_func c = Some f"
    and "u_choi c = Some acc" "is_mat (d * d) (d * d) acc" "list_all (is_mat d d) Es"
  shows "\<exists>acc'. choi_loop c Es = (c\<lparr>u_choi := Some acc'\<rparr>, None)
     \<and> is_mat (d * d) (d * d) acc'
     \<and> (\<forall>i<d * d. \<forall>j<d * d.
          acc' ! i ! j = acc ! i ! j + sum_list (map (\<lambda>E. kron E (f E) ! i ! j) Es))"
  using assms(3-7)
proof (induction Es arbitrary: c acc)
  case Nil
  have "c\<lparr>u_choi := Some acc\<rparr> = c" using Nil(3) by simp
  then have "choi_loop c [] = (c\<lparr>u_choi := Some acc\<rparr>, None)
     \<and> is_mat (d * d) (d * d) acc
     \<and> (\<forall>i<d * d. \<forall>j<d * d.
          acc ! i ! j = acc ! i ! j + sum_list (map (\<lambda>E. kron E (f E) ! i ! j) []))"
    using Nil(4) by simp
  then show ?case by (rule exI)
next
  case (Cons E Es)
  have E: "is_mat d d E" and Es: "list_all (is_mat d d) Es" using Cons.prems(5) by simp_all
  have fE: "is_mat d d (f E)" using assms(2) E by (rule linear_on_shape)
  have K: "is_mat (d * d) (d * d) (kron E (f E))" using E fE assms(1) by (rule kron_is_mat)
  have dd: "0 < d * d" using assms(1) by simp
  have tr: "transform_cached c E = Inr (f E)"
    using Cons.prems(1,2) by (simp add: transform_cached_def)
  have ma: "madd acc (kron E (f E)) = Inr (mat_plus acc (kron E (f E)))"
    using Cons.prems(4) K dd by (rule madd_ok)
  let ?acc1 = "mat_plus acc (kron E (f E))"
  let ?c1 = "c\<lparr>u_choi := Some ?acc1\<rparr>"
  have step: "choi_loop c (E # Es) = choi_loop ?c1 Es"
    using tr ma Cons.prems(3) by simp
  have a1: "is_mat (d * d) (d * d) ?acc1" using Cons.prems(4) dd by (rule mat_plus_is_mat)
  have "\<exists>acc'. choi_loop ?c1 Es = (?c1\<lparr>u_choi := Some acc'\<rparr>, None)
     \<and> is_mat (d * d) (d * d) acc'
     \<and> (\<forall>i<d * d. \<forall>j<d * d.
          acc' ! i ! j = ?acc1 ! i ! j + sum_list (map (\<lambda>E. kron E (f E) ! i ! j) Es))"
    using Cons.prems(1,2) a1 Es by (intro Cons.IH) simp_all
  then obtain acc' where A: "choi_loop ?c1 Es = (?c1\<lparr>u_choi := Some acc'\<rparr>, None)"
    "is_mat (d * d) (d * d) acc'"
    "\<forall>i<d * d. \<forall>j<d * d.
          acc' ! i ! j = ?acc1 ! i ! j + sum_list (map (\<lambda>E. kron E (f E) ! i ! j) Es)"
    by blast
  have r: "?c1\<lparr>u_choi := Some acc'\<rparr> = c\<lparr>u_choi := Some acc'\<rparr>" by simp
  have ent: "\<forall>i<d * d. \<forall>j<d * d.
          acc' ! i ! j = acc ! i ! j + sum_list (map (\<lambda>E. kron E (f E) ! i ! j) (E # Es))"
  proof (intro allI impI)
    fix i j assume ij: "i < d * d" "j < d * d"
    have "?acc1 ! i ! j = acc ! i ! j + kron E (f E) ! i ! j"
      using Cons.prems(4) dd ij by (rule mat_plus_nth)
    then show "acc' ! i ! j = acc ! i ! j + sum_list (map (\<lambda>E. kron E (f E) ! i ! j) (E # Es))"
      using A(3) ij by (simp add: add.assoc)
  qed
  have "choi_loop c (E # Es) = (c\<lparr>u_choi := Some acc'\<rparr>, None)
     \<and> is_mat (d * d) (d * d) acc'
     \<and> (\<forall>i<d * d. \<forall>j<d * d.
          acc' ! i ! j = acc ! i ! j + sum_list (map (\<lambda>E. kron E (f E) ! i ! j) (E # Es)))"
    using step A(1,2) r ent by simp
  then show ?case by (rule exI)
qed

lemma gen_entries_all: "list_all (is_mat d d) (generate_single_entries d)"
  by (simp add: generate_single_entries_def list_all_iff single_entry_is_mat)

lemma pow4: "(4::nat) ^ n = 2 ^ n * 2 ^ n"
  by (simp add: power_mult_distrib[symmetric])

lemma choi_sum_entry:
  assumes "0 < d" "linear_on d f" "t < d * d" "c < d * d"
  shows "sum_list (map (\<lambda>E. kron E (f E) ! t ! c) (generate_single_entries d))
     = f (single_entry d (t div d) (c div d)) ! (t mod d) ! (c mod d)"
proof -
  let ?SE = "\<lambda>idx. single_entry d (idx div d) (idx mod d) :: complex mat"
  have td: "t div d < d" and cd: "c div d < d"
    using assms(3,4) by (simp_all add: less_mult_imp_div_less)
  have "sum_list (map (\<lambda>E. kron E (f E) ! t ! c) (generate_single_entries d))
      = (\<Sum>idx<d * d. kron (?SE idx) (f (?SE idx)) ! t ! c)"
    by (simp add: generate_single_entries_def comp_def sum_list_upt)
  also have "\<dots> = (\<Sum>idx<d * d. if idx mod d = c div d \<and> idx div d = t div d
        then f (?SE idx) ! (t mod d) ! (c mod d) else 0)"
  proof (rule sum.cong[OF refl])
    fix idx
    have "kron (?SE idx) (f (?SE idx)) ! t ! c
        = ?SE idx ! (t div d) ! (c div d) * f (?SE idx) ! (t mod d) ! (c mod d)"
      using single_entry_is_mat linear_on_shape[OF assms(2) single_entry_is_mat] assms(1,3,4)
      by (rule kron_nth)
    also have "\<dots> = (if idx mod d = c div d \<and> idx div d = t div d
        then f (?SE idx) ! (t mod d) ! (c mod d) else 0)"
      using td cd by (auto simp: single_entry_nth)
    finally show "kron (?SE idx) (f (?SE idx)) ! t ! c
        = (if idx mod d = c div d \<and> idx div d = t div d
           then f (?SE idx) ! (t mod d) ! (c mod d) else 0)" .
  qed
  also have "\<dots> = f (?SE (t div d * d + c div d)) ! (t mod d) ! (c mod d)"
    using td cd by (rule sum_pick)
  also have "?SE (t div d * d + c div d) = single_entry d (t div d) (c div d)"
    using cd by simp
  finally show ?thesis .
qed

lemma choi_entries:
  assumes "linear_on (2 ^ n) f" "''func'' \<in> u_types c" "''choi'' \<notin> u_types c"
    and "u_func c = Some f" "n_qubits c = n"
  shows "\<exists>C. choi c = (c\<lparr>u_types := insert ''choi'' (u_types c), u_choi := Some C\<rparr>,
                        Inr (Some C))
     \<and> is_mat (2 ^ n * 2 ^ n) (2 ^ n * 2 ^ n) C
     \<and> (\<forall>t<2 ^ n * 2 ^ n. \<forall>k<2 ^ n * 2 ^ n.
          C ! t ! k = f (single_entry (2 ^ n) (t div 2 ^ n) (k div 2 ^ n))
                        ! (t mod 2 ^ n) ! (k mod 2 ^ n))
     \<and> (\<forall>t<2 ^ n * 2 ^ n. \<forall>k<2 ^ n * 2 ^ n.
          C ! t ! k = sum_list (map (\<lambda>E. kron E (f E) ! t ! k)
                                  (generate_single_entries (2 ^ n))))"
proof -
  let ?d = "2 ^ n :: nat"
  let ?c1 = "c\<lparr>u_types := insert ''choi'' (u_types c), u_choi := Some (zeros (?d * ?d) (?d * ?d))\<rparr>"
  have d: "0 < ?d" by simp
  have "\<exists>acc'. choi_loop ?c1 (generate_single_entries ?d) = (?c1\<lparr>u_choi := Some acc'\<rparr>, None)
     \<and> is_mat (?d * ?d) (?d * ?d) acc'
     \<and> (\<forall>i<?d * ?d. \<forall>j<?d * ?d.
          acc' ! i ! j = zeros (?d * ?d) (?d * ?d) ! i ! j
             + sum_list (map (\<lambda>E. kron E (f E) ! i ! j) (generate_single_entries ?d)))"
    using d assms(1)
    by (rule choi_loop_sum) (simp_all add: assms zeros_is_mat gen_entries_all)
  then obtain C where C: "choi_loop ?c1 (generate_single_entries ?d) = (?c1\<lparr>u_choi := Some C\<rparr>, None)"
    "is_mat (?d * ?d) (?d * ?d) C"
    "\<forall>i<?d * ?d. \<forall>j<?d * ?d.
          C ! i ! j = zeros (?d * ?d) (?d * ?d) ! i ! j
             + sum_list (map (\<lambda>E. kron E (f E) ! i ! j) (generate_single_entries ?d))"
    by blast
  have ch: "choi c = (c\<lparr>u_types := insert ''choi'' (u_types c), u_choi := Some C\<rparr>, Inr (Some C))"
    using assms(3,5) C(1) by (simp add: choi_def pow4)
  have ent: "\<forall>t<?d * ?d. \<forall>k<?d * ?d.
          C ! t ! k = f (single_entry ?d (t div ?d) (k div ?d)) ! (t mod ?d) ! (k mod ?d)"
  proof (intro allI impI)
    fix t k assume tk: "t < ?d * ?d" "k < ?d * ?d"
    have "C ! t ! k = zeros (?d * ?d) (?d * ?d) ! t ! k
             + sum_list (map (\<lambda>E. kron E (f E) ! t ! k) (generate_single_entries ?d))"
      using C(3) tk by blast
    also have "\<dots> = sum_list (map (\<lambda>E. kron E (f E) ! t ! k) (generate_single_entries ?d))"
      using tk by (simp add: zeros_nth)
    also have "\<dots> = f (single_entry ?d (t div ?d) (k div ?d)) ! (t mod ?d) ! (k mod ?d)"
      using d assms(1) tk by (rule choi_sum_entry)
    finally show "C ! t ! k = f (single_entry ?d (t div ?d) (k div ?d)) ! (t mod ?d) ! (k mod ?d)" .
  qed
  have sm: "\<forall>t<?d * ?d. \<forall>k<?d * ?d.
          C ! t ! k = sum_list (map (\<lambda>E. kron E (f E) ! t ! k) (generate_single_entries ?d))"
    using C(3) by (simp add: zeros_nth)
  show ?thesis using ch C(2) ent sm by blast
qed

section \<open>The partial trace over the first half of the qubits\<close>

lemma floorlog_pow2: "floorlog 2 ((2::nat) ^ k) = k + 1"
proof -
  have "floorlog 2 (1 * (2::nat) ^ k) = floorlog 2 1 + k"
    by (rule floorlog_power) simp_all
  moreover have "floorlog 2 (1::nat) = 1" by (simp add: floorlog_def)
  ultimately show ?thesis by simp
qed

lemma sub_index_snoc: "sub_index N (qs @ [q]) r = 2 * sub_index N qs r + qubit_bit N r q"
  by (simp add: sub_index_def)

lemma sub_index_upt:
  assumes "lo \<le> hi" "hi \<le> N"
  shows "sub_index N [lo..<hi] r = (r div 2 ^ (N - hi)) mod 2 ^ (hi - lo)"
  using assms
proof (induction hi rule: dec_induct)
  case base
  show ?case by (simp add: sub_index_def)
next
  case (step m)
  have mN: "m < N" using step.prems by simp
  let ?y = "r div 2 ^ (N - Suc m)"
  have e: "N - m = Suc (N - Suc m)" using mN by simp
  have "r div 2 ^ (N - m) = ?y div 2"
    unfolding e power_Suc2 by (rule div_mult2_eq)
  then have IH: "sub_index N [lo..<m] r = (?y div 2) mod 2 ^ (m - lo)"
    using step.IH mN by simp
  have qb: "qubit_bit N r m = ?y mod 2"
    by (simp add: qubit_bit_def)
  have k: "Suc m - lo = Suc (m - lo)" using step.hyps by simp
  have "sub_index N [lo..<Suc m] r = 2 * ((?y div 2) mod 2 ^ (m - lo)) + ?y mod 2"
    using step.hyps IH qb by (simp add: sub_index_snoc)
  also have "\<dots> = ?y mod (2 * 2 ^ (m - lo))"
    by (rule mod_mult2_eq[symmetric])
  finally show ?case unfolding k by simp
qed

lemma filter_keep_last:
  "filter (\<lambda>q. q \<in> set [n..<2 * n]) [0..<2 * n] = [n..<2 * n]"
proof -
  have "[0..<2 * n] = [0..<n] @ [n..<2 * n]"
    using upt_add_eq_append[of 0 n n] by (simp add: mult_2)
  then show ?thesis by (simp add: filter_empty_conv)
qed

lemma filter_rest_first:
  "filter (\<lambda>q. q \<notin> set [n..<2 * n]) [0..<2 * n] = [0..<n]"
proof -
  have "[0..<2 * n] = [0..<n] @ [n..<2 * n]"
    using upt_add_eq_append[of 0 n n] by (simp add: mult_2)
  then show ?thesis by (simp add: filter_empty_conv)
qed

lemma sub_index_low:
  "sub_index (2 * n) [n..<2 * n] r = r mod 2 ^ n"
  using sub_index_upt[of n "2 * n" "2 * n" r] by simp

lemma sub_index_high:
  assumes "r < 2 ^ n * 2 ^ n"
  shows "sub_index (2 * n) [0..<n] r = r div 2 ^ n"
proof -
  have "r div 2 ^ n < 2 ^ n" using assms by (simp add: less_mult_imp_div_less)
  then show ?thesis using sub_index_upt[of 0 n "2 * n" r] by simp
qed

lemma mk_mat_cong:
  "(\<And>i j. i < r \<Longrightarrow> j < c \<Longrightarrow> f i j = g i j) \<Longrightarrow> mk_mat r c f = mk_mat r c g"
  by (simp add: mk_mat_def)

lemma ptrace_last:
  fixes P :: "complex mat"
  assumes "is_mat (2 ^ n * 2 ^ n) (2 ^ n * 2 ^ n) P"
  shows "ptrace P [n..<2 * n] = Inr (mk_mat (2 ^ n) (2 ^ n) (\<lambda>a b.
      \<Sum>r<2 ^ n * 2 ^ n. \<Sum>c<2 ^ n * 2 ^ n.
        if r mod 2 ^ n = a \<and> c mod 2 ^ n = b \<and> r div 2 ^ n = c div 2 ^ n
        then P ! r ! c else 0))"
proof -
  let ?d = "2 ^ n :: nat"
  have nr: "nrows P = 2 ^ (2 * n)"
    using is_mat_nrows[OF assms] by (simp add: power_add mult_2)
  have N: "floorlog 2 (nrows P) - 1 = 2 * n" unfolding nr by (simp add: floorlog_pow2)
  have D: "(2::nat) ^ (2 * n) = ?d * ?d" by (simp add: power_add mult_2)
  have len: "length [n..<2 * n] = n" by simp
  have "ptrace P [n..<2 * n] =
     (if nrows P \<noteq> 2 ^ (2 * n) \<or> \<not> is_mat (2 ^ (2 * n)) (2 ^ (2 * n)) P
         \<or> length [n..<2 * n] \<noteq> length [n..<2 * n]
      then Inl DimensionError
      else Inr (mk_mat (2 ^ length [n..<2 * n]) (2 ^ length [n..<2 * n]) (\<lambda>a b.
      sum_list (map (\<lambda>r. sum_list (map (\<lambda>c.
        if sub_index (2 * n) [n..<2 * n] r = a \<and> sub_index (2 * n) [n..<2 * n] c = b
           \<and> sub_index (2 * n) [0..<n] r = sub_index (2 * n) [0..<n] c
        then P ! r ! c else 0) [0..<2 ^ (2 * n)])) [0..<2 ^ (2 * n)]))))"
    unfolding ptrace_def Let_def N filter_keep_last filter_rest_first ..
  also have "\<dots> = Inr (mk_mat ?d ?d (\<lambda>a b.
      sum_list (map (\<lambda>r. sum_list (map (\<lambda>c.
        if sub_index (2 * n) [n..<2 * n] r = a \<and> sub_index (2 * n) [n..<2 * n] c = b
           \<and> sub_index (2 * n) [0..<n] r = sub_index (2 * n) [0..<n] c
        then P ! r ! c else 0) [0..<?d * ?d])) [0..<?d * ?d])))"
    unfolding len D using assms is_mat_nrows[OF assms] by simp
  also have "mk_mat ?d ?d (\<lambda>a b.
      sum_list (map (\<lambda>r. sum_list (map (\<lambda>c.
        if sub_index (2 * n) [n..<2 * n] r = a \<and> sub_index (2 * n) [n..<2 * n] c = b
           \<and> sub_index (2 * n) [0..<n] r = sub_index (2 * n) [0..<n] c
        then P ! r ! c else 0) [0..<?d * ?d])) [0..<?d * ?d]))
     = mk_mat ?d ?d (\<lambda>a b.
      \<Sum>r<?d * ?d. \<Sum>c<?d * ?d.
        if r mod ?d = a \<and> c mod ?d = b \<and> r div ?d = c div ?d
        then P ! r ! c else 0)"
  proof (rule mk_mat_cong)
    fix a b
    show "sum_list (map (\<lambda>r. sum_list (map (\<lambda>c.
        if sub_index (2 * n) [n..<2 * n] r = a \<and> sub_index (2 * n) [n..<2 * n] c = b
           \<and> sub_index (2 * n) [0..<n] r = sub_index (2 * n) [0..<n] c
        then P ! r ! c else 0) [0..<?d * ?d])) [0..<?d * ?d])
      = (\<Sum>r<?d * ?d. \<Sum>c<?d * ?d.
        if r mod ?d = a \<and> c mod ?d = b \<and> r div ?d = c div ?d
        then P ! r ! c else 0)"
      unfolding sum_list_upt
      by (intro sum.cong refl) (simp add: sub_index_low sub_index_high)
  qed
  finally show ?thesis .
qed

lemma ptrace_sum_collapse:
  fixes Q :: "nat \<Rightarrow> nat \<Rightarrow> complex"
  assumes "0 < d" "a < d" "b < d"
  shows "(\<Sum>r<d * d. \<Sum>c<d * d.
        if r mod d = a \<and> c mod d = b \<and> r div d = c div d then Q r c else 0)
     = (\<Sum>h<d. Q (h * d + a) (h * d + b))"
proof -
  have "(\<Sum>r<d * d. \<Sum>c<d * d.
        if r mod d = a \<and> c mod d = b \<and> r div d = c div d then Q r c else 0)
      = (\<Sum>r<d * d. if r mod d = a then Q r (r div d * d + b) else 0)"
  proof (rule sum.cong[OF refl])
    fix r assume "r \<in> {..<d * d}"
    then have rd: "r div d < d" by (simp add: less_mult_imp_div_less)
    show "(\<Sum>c<d * d. if r mod d = a \<and> c mod d = b \<and> r div d = c div d then Q r c else 0)
        = (if r mod d = a then Q r (r div d * d + b) else 0)"
    proof (cases "r mod d = a")
      case True
      have "(\<Sum>c<d * d. if r mod d = a \<and> c mod d = b \<and> r div d = c div d then Q r c else 0)
          = (\<Sum>c<d * d. if c mod d = b \<and> c div d = r div d then Q r c else 0)"
        using True by (intro sum.cong refl) auto
      also have "\<dots> = Q r (r div d * d + b)"
        using rd assms(3) by (rule sum_pick)
      finally show ?thesis using True by simp
    next
      case False
      then show ?thesis by simp
    qed
  qed
  also have "\<dots> = (\<Sum>h<d. Q (h * d + a) ((h * d + a) div d * d + b))"
    using assms(1,2) by (rule sum_mod_select)
  also have "\<dots> = (\<Sum>h<d. Q (h * d + a) (h * d + b))"
    using assms(2) by simp
  finally show ?thesis .
qed

section \<open>A linear map is determined by its values on the single-entry operators\<close>

lemma smult_is_mat: "is_mat r c A \<Longrightarrow> is_mat r c (smult k A)"
  by (simp add: smult_def is_mat_def list_all_iff)

lemma smult_nth: "is_mat r c A \<Longrightarrow> i < r \<Longrightarrow> j < c \<Longrightarrow> smult k A ! i ! j = k * A ! i ! j"
  by (simp add: smult_def is_mat_def list_all_length)

lemma lin_comb_is_mat:
  assumes "0 < d"
  shows "list_all (\<lambda>p. is_mat d d (snd p)) xs \<Longrightarrow> is_mat d d (lin_comb d xs)"
proof (induction xs)
  case Nil
  show ?case by (simp add: zeros_is_mat)
next
  case (Cons p xs)
  obtain c E where p: "p = (c, E)" by (cases p)
  have "is_mat d d (smult c E)" using Cons.prems p by (simp add: smult_is_mat)
  then show ?case using p assms by (simp add: mat_plus_is_mat)
qed

lemma lin_comb_nth:
  assumes "0 < d" "i < d" "j < d"
  shows "list_all (\<lambda>p. is_mat d d (snd p)) xs
     \<Longrightarrow> lin_comb d xs ! i ! j = sum_list (map (\<lambda>p. fst p * snd p ! i ! j) xs)"
proof (induction xs)
  case Nil
  show ?case using assms by (simp add: zeros_nth)
next
  case (Cons p xs)
  obtain c E where p: "p = (c, E)" by (cases p)
  have E: "is_mat d d E" using Cons.prems p by simp
  have "lin_comb d (p # xs) ! i ! j = smult c E ! i ! j + lin_comb d xs ! i ! j"
    unfolding p lin_comb.simps
    using smult_is_mat[OF E] assms by (rule mat_plus_nth)
  then show ?case using Cons p E assms by (simp add: smult_nth)
qed

lemma linear_on_smult:
  "linear_on d f \<Longrightarrow> is_mat d d A \<Longrightarrow> f (smult c A) = smult c (f A)"
  unfolding linear_on_def by blast

lemma linear_on_plus:
  "linear_on d f \<Longrightarrow> is_mat d d A \<Longrightarrow> is_mat d d B
     \<Longrightarrow> f (mat_plus A B) = mat_plus (f A) (f B)"
  unfolding linear_on_def by blast

lemma linear_zero:
  assumes "linear_on d f"
  shows "f (zeros d d) = zeros d d"
proof -
  have z: "smult 0 (zeros d d) = (zeros d d :: complex mat)"
    by (rule mat_ext[OF smult_is_mat[OF zeros_is_mat] zeros_is_mat])
       (simp add: smult_nth[OF zeros_is_mat] zeros_nth)
  have fz: "is_mat d d (f (zeros d d))" using assms zeros_is_mat by (rule linear_on_shape)
  have "f (smult 0 (zeros d d)) = smult 0 (f (zeros d d))"
    using assms zeros_is_mat by (rule linear_on_smult)
  also have "\<dots> = zeros d d"
    by (rule mat_ext[OF smult_is_mat[OF fz] zeros_is_mat])
       (simp add: smult_nth[OF fz] zeros_nth)
  finally show ?thesis unfolding z .
qed

lemma linear_lin_comb:
  assumes "linear_on d f" "0 < d"
  shows "list_all (\<lambda>p. is_mat d d (snd p)) xs
     \<Longrightarrow> f (lin_comb d xs) = lin_comb d (map (\<lambda>p. (fst p, f (snd p))) xs)"
proof (induction xs)
  case Nil
  show ?case using assms(1) by (simp add: linear_zero)
next
  case (Cons p xs)
  obtain c E where p: "p = (c, E)" by (cases p)
  have E: "is_mat d d E" and xs: "list_all (\<lambda>p. is_mat d d (snd p)) xs"
    using Cons.prems p by simp_all
  have L: "is_mat d d (lin_comb d xs)" using assms(2) xs by (rule lin_comb_is_mat)
  have "f (mat_plus (smult c E) (lin_comb d xs)) = mat_plus (f (smult c E)) (f (lin_comb d xs))"
    using assms(1) smult_is_mat[OF E] L by (rule linear_on_plus)
  also have "f (smult c E) = smult c (f E)"
    using assms(1) E by (rule linear_on_smult)
  finally show ?case using Cons.IH[OF xs] p by simp
qed

lemma basis_decomp:
  assumes "is_mat d d rho" "0 < d"
  shows "rho = lin_comb d (map (\<lambda>idx. (rho ! (idx div d) ! (idx mod d),
                                     single_entry d (idx div d) (idx mod d))) [0..<d * d])"
proof (rule mat_ext[OF assms(1)])
  let ?xs = "map (\<lambda>idx. (rho ! (idx div d) ! (idx mod d),
                          single_entry d (idx div d) (idx mod d) :: complex mat)) [0..<d * d]"
  have all: "list_all (\<lambda>p. is_mat d d (snd p)) ?xs"
    by (simp add: list_all_iff single_entry_is_mat)
  show "is_mat d d (lin_comb d ?xs)" using assms(2) all by (rule lin_comb_is_mat)
  fix i j assume ij: "i < d" "j < d"
  have "lin_comb d ?xs ! i ! j = sum_list (map (\<lambda>p. fst p * snd p ! i ! j) ?xs)"
    using assms(2) ij all by (rule lin_comb_nth)
  also have "\<dots> = (\<Sum>idx<d * d. rho ! (idx div d) ! (idx mod d)
                       * single_entry d (idx div d) (idx mod d) ! i ! j)"
    by (simp add: comp_def sum_list_upt)
  also have "\<dots> = (\<Sum>idx<d * d. if idx mod d = j \<and> idx div d = i
                       then rho ! (idx div d) ! (idx mod d) else 0)"
    using ij by (intro sum.cong refl) (auto simp: single_entry_nth)
  also have "\<dots> = rho ! ((i * d + j) div d) ! ((i * d + j) mod d)"
    using ij by (rule sum_pick)
  also have "\<dots> = rho ! i ! j" using ij by simp
  finally show "rho ! i ! j = lin_comb d ?xs ! i ! j" by simp
qed

lemma linear_entry:
  assumes "linear_on d f" "is_mat d d rho" "0 < d" "a < d" "b < d"
  shows "f rho ! a ! b = (\<Sum>i<d. \<Sum>j<d. rho ! i ! j * f (single_entry d i j) ! a ! b)"
proof -
  let ?xs = "map (\<lambda>idx. (rho ! (idx div d) ! (idx mod d),
                          single_entry d (idx div d) (idx mod d) :: complex mat)) [0..<d * d]"
  let ?ys = "map (\<lambda>p. (fst p, f (snd p))) ?xs"
  have all: "list_all (\<lambda>p. is_mat d d (snd p)) ?xs"
    by (simp add: list_all_iff single_entry_is_mat)
  have all': "list_all (\<lambda>p. is_mat d d (snd p)) ?ys"
    using assms(1) by (simp add: list_all_iff single_entry_is_mat linear_on_shape)
  have "f rho = f (lin_comb d ?xs)" using basis_decomp[OF assms(2,3)] by simp
  also have "\<dots> = lin_comb d ?ys" using assms(1,3) all by (rule linear_lin_comb)
  finally have "f rho ! a ! b = lin_comb d ?ys ! a ! b" by simp
  also have "\<dots> = sum_list (map (\<lambda>p. fst p * snd p ! a ! b) ?ys)"
    using assms(3,4,5) all' by (rule lin_comb_nth)
  also have "\<dots> = (\<Sum>idx<d * d. (\<lambda>i j. rho ! i ! j * f (single_entry d i j) ! a ! b)
                        (idx div d) (idx mod d))"
    by (simp add: comp_def sum_list_upt)
  also have "\<dots> = (\<Sum>i<d. \<Sum>j<d. rho ! i ! j * f (single_entry d i j) ! a ! b)"
    using assms(3) by (rule sum_divmod)
  finally show ?thesis .
qed

section \<open>The Choi path applies the map\<close>

lemma index_bound:
  assumes "h < m" "a < (d::nat)"
  shows "h * d + a < m * d"
proof -
  have "h * d + a < Suc h * d" using assms(2) by simp
  also have "\<dots> \<le> m * d" using assms(1) by (intro mult_le_mono1) simp
  finally show ?thesis .
qed

lemma mtranspose_is_mat: "is_mat d d A \<Longrightarrow> 0 < d \<Longrightarrow> is_mat d d (mtranspose A)"
  by (simp add: mtranspose_def is_mat_nrows is_mat_ncols is_mat_mk)

lemma mtranspose_nth:
  "is_mat d d A \<Longrightarrow> 0 < d \<Longrightarrow> i < d \<Longrightarrow> j < d \<Longrightarrow> mtranspose A ! i ! j = A ! j ! i"
  by (simp add: mtranspose_def is_mat_nrows is_mat_ncols mk_mat_nth)

lemma eye_is_mat: "is_mat d d (eye d)"
  by (simp add: eye_def is_mat_mk)

lemma eye_nth: "i < d \<Longrightarrow> j < d \<Longrightarrow> eye d ! i ! j = (if i = j then 1 else 0)"
  by (simp add: eye_def mk_mat_nth)

lemma matmul_ok:
  assumes "is_mat r k A" "is_mat k c B" "0 < r" "0 < k"
  shows "matmul A B = Inr (mk_mat r c (\<lambda>i j. \<Sum>t<k. A ! i ! t * B ! t ! j))"
  using assms by (simp add: matmul_def is_mat_nrows is_mat_ncols sum_list_upt)

lemma choi_apply_entries:
  fixes F :: "nat \<Rightarrow> nat \<Rightarrow> complex mat"
  assumes rho: "is_mat (2 ^ n) (2 ^ n) rho"
    and C: "is_mat (2 ^ n * 2 ^ n) (2 ^ n * 2 ^ n) C"
    and ent: "\<forall>t<2 ^ n * 2 ^ n. \<forall>k<2 ^ n * 2 ^ n.
          C ! t ! k = F (t div 2 ^ n) (k div 2 ^ n) ! (t mod 2 ^ n) ! (k mod 2 ^ n)"
  shows "choi_apply n (Some C) rho = Inr (mk_mat (2 ^ n) (2 ^ n)
           (\<lambda>a b. \<Sum>h<2 ^ n. \<Sum>i<2 ^ n. rho ! i ! h * F i h ! a ! b))"
proof -
  let ?d = "2 ^ n :: nat"
  let ?X = "kron (mtranspose rho) (eye ?d) :: complex mat"
  let ?P = "mk_mat (?d * ?d) (?d * ?d) (\<lambda>i j. \<Sum>t<?d * ?d. ?X ! i ! t * C ! t ! j)"
  have d: "0 < ?d" by simp
  have dd: "0 < ?d * ?d" by simp
  have T: "is_mat ?d ?d (mtranspose rho)" using rho d by (rule mtranspose_is_mat)
  have X: "is_mat (?d * ?d) (?d * ?d) ?X" using T eye_is_mat d by (rule kron_is_mat)
  have mm: "matmul ?X C = Inr ?P" using X C dd dd by (rule matmul_ok)
  have P: "is_mat (?d * ?d) (?d * ?d) ?P" by (rule is_mat_mk)
  have pt: "ptrace ?P [n..<2 * n] = Inr (mk_mat ?d ?d (\<lambda>a b.
      \<Sum>r<?d * ?d. \<Sum>c<?d * ?d.
        if r mod ?d = a \<and> c mod ?d = b \<and> r div ?d = c div ?d
        then ?P ! r ! c else 0))"
    using P by (rule ptrace_last)
  have ca: "choi_apply n (Some C) rho = ptrace ?P [n..<2 * n]"
    using mm by (simp add: choi_apply_def)
  have Pent: "?P ! (h * ?d + a) ! (h * ?d + b) = (\<Sum>i<?d. rho ! i ! h * F i h ! a ! b)"
    if h: "h < ?d" and a: "a < ?d" and b: "b < ?d" for h a b
  proof -
    have ra: "h * ?d + a < ?d * ?d" and rb: "h * ?d + b < ?d * ?d"
      using h a b by (simp_all add: index_bound)
    have "?P ! (h * ?d + a) ! (h * ?d + b)
        = (\<Sum>t<?d * ?d. ?X ! (h * ?d + a) ! t * C ! t ! (h * ?d + b))"
      using ra rb by (rule mk_mat_nth)
    also have "\<dots> = (\<Sum>t<?d * ?d. if t mod ?d = a
          then rho ! (t div ?d) ! h * F (t div ?d) h ! (t mod ?d) ! b else 0)"
    proof (rule sum.cong[OF refl])
      fix t assume "t \<in> {..<?d * ?d}"
      then have t: "t < ?d * ?d" by simp
      then have td: "t div ?d < ?d" by (simp add: less_mult_imp_div_less)
      have "?X ! (h * ?d + a) ! t
          = mtranspose rho ! ((h * ?d + a) div ?d) ! (t div ?d)
            * eye ?d ! ((h * ?d + a) mod ?d) ! (t mod ?d)"
        using T eye_is_mat d ra t by (rule kron_nth)
      also have "\<dots> = rho ! (t div ?d) ! h * (if a = t mod ?d then 1 else 0)"
        using h a td rho by (simp add: mtranspose_nth eye_nth)
      finally have x: "?X ! (h * ?d + a) ! t
          = rho ! (t div ?d) ! h * (if a = t mod ?d then 1 else 0)" .
      have c: "C ! t ! (h * ?d + b) = F (t div ?d) h ! (t mod ?d) ! b"
        using ent t rb h b by simp
      show "?X ! (h * ?d + a) ! t * C ! t ! (h * ?d + b)
          = (if t mod ?d = a
             then rho ! (t div ?d) ! h * F (t div ?d) h ! (t mod ?d) ! b else 0)"
        unfolding x c by auto
    qed
    also have "\<dots> = (\<Sum>i<?d. rho ! ((i * ?d + a) div ?d) ! h
                         * F ((i * ?d + a) div ?d) h ! ((i * ?d + a) mod ?d) ! b)"
      using d a by (rule sum_mod_select)
    also have "\<dots> = (\<Sum>i<?d. rho ! i ! h * F i h ! a ! b)"
      using a by simp
    finally show ?thesis .
  qed
  have "mk_mat ?d ?d (\<lambda>a b.
      \<Sum>r<?d * ?d. \<Sum>c<?d * ?d.
        if r mod ?d = a \<and> c mod ?d = b \<and> r div ?d = c div ?d
        then ?P ! r ! c else 0)
      = mk_mat ?d ?d (\<lambda>a b. \<Sum>h<?d. \<Sum>i<?d. rho ! i ! h * F i h ! a ! b)"
  proof (rule mk_mat_cong)
    fix a b assume ab: "a < ?d" "b < ?d"
    have "(\<Sum>r<?d * ?d. \<Sum>c<?d * ?d.
        if r mod ?d = a \<and> c mod ?d = b \<and> r div ?d = c div ?d
        then ?P ! r ! c else 0)
        = (\<Sum>h<?d. ?P ! (h * ?d + a) ! (h * ?d + b))"
      using d ab by (rule ptrace_sum_collapse)
    also have "\<dots> = (\<Sum>h<?d. \<Sum>i<?d. rho ! i ! h * F i h ! a ! b)"
      using ab by (intro sum.cong refl) (simp add: Pent)
    finally show "(\<Sum>r<?d * ?d. \<Sum>c<?d * ?d.
        if r mod ?d = a \<and> c mod ?d = b \<and> r div ?d = c div ?d
        then ?P ! r ! c else 0)
        = (\<Sum>h<?d. \<Sum>i<?d. rho ! i ! h * F i h ! a ! b)" .
  qed
  then show ?thesis using ca pt by simp
qed

lemma choi_apply_round_trip:
  assumes lin: "linear_on (2 ^ n) f" and rho: "is_mat (2 ^ n) (2 ^ n) rho"
    and C: "is_mat (2 ^ n * 2 ^ n) (2 ^ n * 2 ^ n) C"
    and ent: "\<forall>t<2 ^ n * 2 ^ n. \<forall>k<2 ^ n * 2 ^ n.
          C ! t ! k = f (single_entry (2 ^ n) (t div 2 ^ n) (k div 2 ^ n))
                        ! (t mod 2 ^ n) ! (k mod 2 ^ n)"
  shows "choi_apply n (Some C) rho = Inr (f rho)"
proof -
  let ?d = "2 ^ n :: nat"
  have d: "0 < ?d" by simp
  have "choi_apply n (Some C) rho = Inr (mk_mat ?d ?d
           (\<lambda>a b. \<Sum>h<?d. \<Sum>i<?d. rho ! i ! h * f (single_entry ?d i h) ! a ! b))"
    using rho C ent by (rule choi_apply_entries)
  moreover have "mk_mat ?d ?d
           (\<lambda>a b. \<Sum>h<?d. \<Sum>i<?d. rho ! i ! h * f (single_entry ?d i h) ! a ! b) = f rho"
  proof (rule mat_ext[OF is_mat_mk linear_on_shape[OF lin rho]])
    fix a b assume ab: "a < ?d" "b < ?d"
    have "f rho ! a ! b = (\<Sum>i<?d. \<Sum>j<?d. rho ! i ! j * f (single_entry ?d i j) ! a ! b)"
      using lin rho d ab by (rule linear_entry)
    also have "\<dots> = (\<Sum>h<?d. \<Sum>i<?d. rho ! i ! h * f (single_entry ?d i h) ! a ! b)"
      by (rule sum.swap)
    finally show "mk_mat ?d ?d
           (\<lambda>a b. \<Sum>h<?d. \<Sum>i<?d. rho ! i ! h * f (single_entry ?d i h) ! a ! b) ! a ! b
         = f rho ! a ! b"
      using ab by (simp add: mk_mat_nth)
  qed
  ultimately show ?thesis by simp
qed

lemma linear_on_mtranspose:
  assumes "0 < d"
  shows "linear_on d mtranspose"
  unfolding linear_on_def
proof (intro conjI allI impI)
  fix A :: "complex mat" assume "is_mat d d A"
  then show "is_mat d d (mtranspose A)" using assms by (rule mtranspose_is_mat)
next
  fix A B :: "complex mat" assume AB: "is_mat d d A \<and> is_mat d d B"
  then have A: "is_mat d d A" and B: "is_mat d d B" by simp_all
  have S: "is_mat d d (mat_plus A B)" using A assms by (rule mat_plus_is_mat)
  have TA: "is_mat d d (mtranspose A)" using A assms by (rule mtranspose_is_mat)
  show "mtranspose (mat_plus A B) = mat_plus (mtranspose A) (mtranspose B)"
  proof (rule mat_ext[OF mtranspose_is_mat[OF S assms] mat_plus_is_mat[OF TA assms]])
    fix i j assume ij: "i < d" "j < d"
    show "mtranspose (mat_plus A B) ! i ! j = mat_plus (mtranspose A) (mtranspose B) ! i ! j"
      using ij assms A B S TA
      by (simp add: mtranspose_nth mat_plus_nth[where r = d and c = d])
  qed
next
  fix c and A :: "complex mat" assume A: "is_mat d d A"
  have S: "is_mat d d (smult c A)" using A by (rule smult_is_mat)
  have TA: "is_mat d d (mtranspose A)" using A assms by (rule mtranspose_is_mat)
  show "mtranspose (smult c A) = smult c (mtranspose A)"
  proof (rule mat_ext[OF mtranspose_is_mat[OF S assms] smult_is_mat[OF TA]])
    fix i j assume ij: "i < d" "j < d"
    show "mtranspose (smult c A) ! i ! j = smult c (mtranspose A) ! i ! j"
      using ij assms A S TA
      by (simp add: mtranspose_nth smult_nth[where r = d and c = d])
  qed
qed

lemma transpose_example: "mtranspose [[1, 2], [3, 4 :: complex]] = [[1, 3], [2, 4]]"
  by code_simp

section \<open>Claim on the Choi round trip\<close>

text \<open>
  Claim C1. Let \<open>f\<close> be a linear transformation on \<open>2^n \<times> 2^n\<close> operators and \<open>rho\<close> such an
  operator. The channel \<open>c0\<close> constructed from \<open>f\<close> with \<open>n\<close> qubits applies \<open>f\<close> on the
  function path. Reading its property \<^verbatim>\<open>choi\<close> returns a \<open>4^n \<times> 4^n\<close> matrix \<open>C\<close> whose
  entries are those of the sum, over all single-entry operators \<open>E\<close>, of \<open>kron(E, f(E))\<close>.
  The Choi path on \<open>C\<close> reproduces \<open>f\<close>: the transpose of \<open>rho\<close> tensored with the identity
  of dimension \<open>2^n\<close>, times \<open>C\<close>, is a matrix \<open>P\<close>, and the partial trace of \<open>P\<close> that keeps
  the qubits \<open>n, \<dots>, 2n - 1\<close> is \<open>f rho\<close>. \<^verbatim>\<open>transform\<close> returns \<open>f rho\<close>, with no error and
  without changing the channel, on every channel whose function representation is invalid
  and whose Choi matrix is \<open>C\<close>: the channel with the tag \<^verbatim>\<open>'func'\<close> dropped, the same with
  the function removed as well, the channel after \<open>C\<close> is assigned through the setter, and
  the channel \<open>c3\<close> constructed from the array \<open>C\<close>, which holds no function at all. Entries
  are exact complex numbers, so the results are equal and not only close.
\<close>

theorem choi_round_trip:
  assumes "linear_on (2 ^ n) f" and "is_mat (2 ^ n) (2 ^ n) rho"
  shows "\<exists>c0 c1 c3 C P. channel_init (Callable f) (Some n) = Inr c0
     \<and> transform c0 rho = (c0, Inr (f rho))
     \<and> choi c0 = (c1, Inr (Some C))
     \<and> is_mat (4 ^ n) (4 ^ n) C
     \<and> (\<forall>t<4 ^ n. \<forall>k<4 ^ n.
          C ! t ! k = sum_list (map (\<lambda>E. kron E (f E) ! t ! k)
                                  (generate_single_entries (2 ^ n))))
     \<and> matmul (kron (mtranspose rho) (eye (2 ^ n))) C = Inr P
     \<and> ptrace P [n..<2 * n] = Inr (f rho)
     \<and> transform (c1\<lparr>u_types := u_types c1 - {''func''}\<rparr>) rho
         = (c1\<lparr>u_types := u_types c1 - {''func''}\<rparr>, Inr (f rho))
     \<and> transform (c1\<lparr>u_types := u_types c1 - {''func''}, u_func := None\<rparr>) rho
         = (c1\<lparr>u_types := u_types c1 - {''func''}, u_func := None\<rparr>, Inr (f rho))
     \<and> transform (fst (choi_setter c1 C)) rho = (fst (choi_setter c1 C), Inr (f rho))
     \<and> channel_init (NdArray C) None = Inr c3
     \<and> u_types c3 = {''choi''} \<and> u_func c3 = None \<and> u_choi c3 = Some C \<and> n_qubits c3 = n
     \<and> transform c3 rho = (c3, Inr (f rho))"
proof -
  let ?c0 = "\<lparr>u_types = {''func''}, u_choi = None, u_func = Some f, n_qubits = n\<rparr>"
  have init: "channel_init (Callable f) (Some n) = Inr ?c0"
    by (simp add: channel_init_def)
  have t0: "transform ?c0 rho = (?c0, Inr (f rho))"
    by (simp add: transform_def)
  have "\<exists>C. choi ?c0 = (?c0\<lparr>u_types := insert ''choi'' (u_types ?c0), u_choi := Some C\<rparr>,
                        Inr (Some C))
     \<and> is_mat (2 ^ n * 2 ^ n) (2 ^ n * 2 ^ n) C
     \<and> (\<forall>t<2 ^ n * 2 ^ n. \<forall>k<2 ^ n * 2 ^ n.
          C ! t ! k = f (single_entry (2 ^ n) (t div 2 ^ n) (k div 2 ^ n))
                        ! (t mod 2 ^ n) ! (k mod 2 ^ n))
     \<and> (\<forall>t<2 ^ n * 2 ^ n. \<forall>k<2 ^ n * 2 ^ n.
          C ! t ! k = sum_list (map (\<lambda>E. kron E (f E) ! t ! k)
                                  (generate_single_entries (2 ^ n))))"
    using assms(1) by (rule choi_entries) simp_all
  then obtain C where C: "choi ?c0 = (?c0\<lparr>u_types := insert ''choi'' (u_types ?c0),
                                          u_choi := Some C\<rparr>, Inr (Some C))"
    "is_mat (2 ^ n * 2 ^ n) (2 ^ n * 2 ^ n) C"
    "\<forall>t<2 ^ n * 2 ^ n. \<forall>k<2 ^ n * 2 ^ n.
          C ! t ! k = f (single_entry (2 ^ n) (t div 2 ^ n) (k div 2 ^ n))
                        ! (t mod 2 ^ n) ! (k mod 2 ^ n)"
    "\<forall>t<2 ^ n * 2 ^ n. \<forall>k<2 ^ n * 2 ^ n.
          C ! t ! k = sum_list (map (\<lambda>E. kron E (f E) ! t ! k)
                                  (generate_single_entries (2 ^ n)))"
    by blast
  let ?c1 = "?c0\<lparr>u_types := insert ''choi'' (u_types ?c0), u_choi := Some C\<rparr>"
  have C4: "is_mat (4 ^ n) (4 ^ n) C" using C(2) by (simp add: pow4)
  have S4: "\<forall>t<4 ^ n. \<forall>k<4 ^ n.
          C ! t ! k = sum_list (map (\<lambda>E. kron E (f E) ! t ! k)
                                  (generate_single_entries (2 ^ n)))"
    using C(4) by (simp add: pow4)
  have rt: "choi_apply n (Some C) rho = Inr (f rho)"
    using assms C(2,3) by (rule choi_apply_round_trip)
  obtain P where P: "matmul (kron (mtranspose rho) (eye (2 ^ n))) C = Inr P"
    "ptrace P [n..<2 * n] = Inr (f rho)"
  proof (cases "matmul (kron (mtranspose rho) (eye (2 ^ n))) C")
    case (Inl e)
    then show ?thesis using rt by (simp add: choi_apply_def)
  next
    case (Inr Q)
    then have "ptrace Q [n..<2 * n] = Inr (f rho)" using rt by (simp add: choi_apply_def)
    then show ?thesis using Inr that by blast
  qed
  have via: "transform c rho = (c, Inr (f rho))"
    if "u_types c = {''choi''}" "u_choi c = Some C" "n_qubits c = n" for c
  proof -
    have nf: "''func'' \<notin> u_types c" and ch: "''choi'' \<in> u_types c"
      unfolding that(1) by simp_all
    have "choi c = (c, Inr (u_choi c))" using ch by (rule choi_cached)
    then show ?thesis using nf rt that(2,3) by (simp add: transform_def)
  qed
  let ?c2 = "?c1\<lparr>u_types := u_types ?c1 - {''func''}\<rparr>"
  have ty2: "u_types ?c2 = {''choi''}" by auto
  have t2: "transform ?c2 rho = (?c2, Inr (f rho))"
    using ty2 by (rule via) simp_all
  let ?c2' = "?c1\<lparr>u_types := u_types ?c1 - {''func''}, u_func := None\<rparr>"
  have ty2': "u_types ?c2' = {''choi''}" by auto
  have t2': "transform ?c2' rho = (?c2', Inr (f rho))"
    using ty2' by (rule via) simp_all
  let ?c4 = "fst (choi_setter ?c1 C)"
  have nr: "nrows C = 4 ^ n" using is_mat_nrows[OF C4] .
  have half: "int_log2_half (nrows C) = Inr n" unfolding nr by (rule int_log2_half_pow4)
  have c4: "?c4 = ?c1\<lparr>u_types := insert ''choi'' (u_types ?c1) - {''func''}, u_choi := Some C,
                        n_qubits := n\<rparr>"
    using half by (simp add: choi_setter_def Let_def)
  have ty4: "u_types ?c4 = {''choi''}" unfolding c4 by auto
  have ch4: "u_choi ?c4 = Some C" unfolding c4 by simp
  have nq4: "n_qubits ?c4 = n" unfolding c4 by simp
  have t4: "transform ?c4 rho = (?c4, Inr (f rho))"
    using ty4 ch4 nq4 by (rule via)
  let ?c3 = "\<lparr>u_types = {''choi''}, u_choi = Some C, u_func = None, n_qubits = n\<rparr>"
  have i3: "channel_init (NdArray C) None = Inr ?c3"
    using half by (simp add: channel_init_def)
  have t3: "transform ?c3 rho = (?c3, Inr (f rho))"
    by (rule via) simp_all
  have ty3: "u_types ?c3 = {''choi''}" by simp
  have fu3: "u_func ?c3 = None" by simp
  have ch3: "u_choi ?c3 = Some C" by simp
  have nq3: "n_qubits ?c3 = n" by simp
  show ?thesis
    apply (rule exI[of _ ?c0])
    apply (rule exI[of _ ?c1])
    apply (rule exI[of _ ?c3])
    apply (rule exI[of _ C])
    apply (rule exI[of _ P])
    apply (intro conjI)
    subgoal by (rule init)
    subgoal by (rule t0)
    subgoal by (rule C(1))
    subgoal by (rule C4)
    subgoal by (rule S4)
    subgoal by (rule P(1))
    subgoal by (rule P(2))
    subgoal by (rule t2)
    subgoal by (rule t2')
    subgoal by (rule t4)
    subgoal by (rule i3)
    subgoal by (rule ty3)
    subgoal by (rule fu3)
    subgoal by (rule ch3)
    subgoal by (rule nq3)
    subgoal by (rule t3)
    done
qed

text \<open>
  The transposition map on one qubit, which is linear and not completely positive, and the
  operator with the entries 1, 2, 3, 4, whose transpose has the rows 1, 3 and 2, 4.
\<close>

theorem choi_round_trip_witness:
  "\<exists>c0 c1 c3 C P. channel_init (Callable mtranspose) (Some 1) = Inr c0
     \<and> transform c0 [[1, 2], [3, 4]] = (c0, Inr [[1, 3], [2, 4]])
     \<and> choi c0 = (c1, Inr (Some C))
     \<and> matmul (kron [[1, 3], [2, 4]] (eye (2 ^ 1))) C = Inr P
     \<and> ptrace P [1..<2 * 1] = Inr [[1, 3], [2, 4]]
     \<and> transform (fst (choi_setter c1 C)) [[1, 2], [3, 4]]
         = (fst (choi_setter c1 C), Inr [[1, 3], [2, 4]])
     \<and> channel_init (NdArray C) None = Inr c3
     \<and> u_func c3 = None
     \<and> transform c3 [[1, 2], [3, 4]] = (c3, Inr [[1, 3], [2, 4]])"
proof -
  have l: "linear_on (2 ^ 1) mtranspose" by (rule linear_on_mtranspose) simp
  have m: "is_mat (2 ^ 1) (2 ^ 1) [[1, 2], [3, 4 :: complex]]" by (simp add: is_mat_def)
  from choi_round_trip[OF l m] show ?thesis
    unfolding transpose_example
    by (elim exE conjE) (intro exI conjI, assumption+)
qed

end
